theory Spec2Isabelle
  imports Complex_Main
begin

section \<open>Numbers\<close>

text \<open>
  The numbers of the program are floating-point numbers. Their arithmetic is a
  parameter of the model: \<open>'f\<close> is the type of numbers, and a record of type
  \<open>'f arith\<close> holds the operations of Python on them that \<open>ppo.py\<close> uses:
  \<^item> \<open>py_int n\<close>: the integer literal \<open>n\<close> as a number;
  \<^item> \<open>py_add\<close>, \<open>py_sub\<close>, \<open>py_mul\<close>: Python's \<open>+\<close>, \<open>-\<close> and \<open>*\<close>;
  \<^item> \<open>to_float32\<close>: the conversion of one number by
    \<open>torch.tensor(..., dtype=torch.float)\<close>.
  Every theorem about an arbitrary \<open>'f arith\<close> holds for the arithmetic of the machine.
\<close>

record 'f arith =
  py_int :: "int \<Rightarrow> 'f"
  py_add :: "'f \<Rightarrow> 'f \<Rightarrow> 'f"
  py_sub :: "'f \<Rightarrow> 'f \<Rightarrow> 'f"
  py_mul :: "'f \<Rightarrow> 'f \<Rightarrow> 'f"
  to_float32 :: "'f \<Rightarrow> 'f"

subsection \<open>IEEE 754 arithmetic\<close>

text \<open>
  The arithmetic of the machine: a number is a finite value, an infinity or NaN (the
  sign of zero is not distinguished). \<open>rne\<close> rounds to the nearest integer, ties to
  even; \<open>round_binary p emin emax\<close> rounds a real to the nearest number with \<open>p\<close>
  significant bits and exponent range \<open>emin..emax\<close>, with gradual underflow, and
  overflows to an infinity.
\<close>

datatype ieee = Fin real | PInf | NInf | NaN

definition rne :: "real \<Rightarrow> int" where
  "rne x =
     (let f = \<lfloor>x\<rfloor>; d = x - of_int f
      in if d < 1 / 2 then f else if 1 / 2 < d then f + 1 else if even f then f else f + 1)"

definition round_binary :: "nat \<Rightarrow> int \<Rightarrow> int \<Rightarrow> real \<Rightarrow> ieee" where
  "round_binary p emin emax x =
     (if x = 0 then Fin 0
      else
        let e = max \<lfloor>log 2 \<bar>x\<bar>\<rfloor> emin;
            u = 2 powr real_of_int (e - (int p - 1));
            y = of_int (rne (\<bar>x\<bar> / u)) * u
        in if 2 powr real_of_int (emax + 1) \<le> y then (if 0 < x then PInf else NInf)
           else Fin (sgn x * y))"

text \<open>A Python float is a binary64 number, an entry of a \<open>torch.float\<close> tensor a binary32 one.\<close>

definition binary64 :: "real \<Rightarrow> ieee" where
  "binary64 x = round_binary 53 (- 1022) 1023 x"

definition binary32 :: "real \<Rightarrow> ieee" where
  "binary32 x = round_binary 24 (- 126) 127 x"

fun ieee_add :: "ieee \<Rightarrow> ieee \<Rightarrow> ieee" where
  "ieee_add NaN b = NaN"
| "ieee_add a NaN = NaN"
| "ieee_add (Fin x) (Fin y) = binary64 (x + y)"
| "ieee_add (Fin x) b = b"
| "ieee_add a (Fin y) = a"
| "ieee_add PInf PInf = PInf"
| "ieee_add NInf NInf = NInf"
| "ieee_add PInf NInf = NaN"
| "ieee_add NInf PInf = NaN"

fun ieee_neg :: "ieee \<Rightarrow> ieee" where
  "ieee_neg (Fin x) = Fin (- x)"
| "ieee_neg PInf = NInf"
| "ieee_neg NInf = PInf"
| "ieee_neg NaN = NaN"

definition ieee_sub :: "ieee \<Rightarrow> ieee \<Rightarrow> ieee" where
  "ieee_sub a b = ieee_add a (ieee_neg b)"

fun ieee_mul :: "ieee \<Rightarrow> ieee \<Rightarrow> ieee" where
  "ieee_mul NaN b = NaN"
| "ieee_mul a NaN = NaN"
| "ieee_mul (Fin x) (Fin y) = binary64 (x * y)"
| "ieee_mul (Fin x) PInf = (if x = 0 then NaN else if 0 < x then PInf else NInf)"
| "ieee_mul (Fin x) NInf = (if x = 0 then NaN else if 0 < x then NInf else PInf)"
| "ieee_mul PInf (Fin y) = (if y = 0 then NaN else if 0 < y then PInf else NInf)"
| "ieee_mul NInf (Fin y) = (if y = 0 then NaN else if 0 < y then NInf else PInf)"
| "ieee_mul PInf PInf = PInf"
| "ieee_mul NInf NInf = PInf"
| "ieee_mul PInf NInf = NInf"
| "ieee_mul NInf PInf = NInf"

fun ieee_to_float32 :: "ieee \<Rightarrow> ieee" where
  "ieee_to_float32 (Fin x) = binary32 x"
| "ieee_to_float32 a = a"

text \<open>
  A decimal literal such as \<open>0.95\<close> denotes the nearest binary64 number. An integer is
  the number it denotes (Python converts it to a float when it meets one, which is
  exact up to \<open>2^53\<close> in absolute value).
\<close>

definition py_float :: "real \<Rightarrow> ieee" where
  "py_float x = binary64 x"

definition ieee_arith :: "ieee arith" where
  "ieee_arith =
     \<lparr>py_int = (\<lambda>n. Fin (of_int n)), py_add = ieee_add, py_sub = ieee_sub,
      py_mul = ieee_mul, to_float32 = ieee_to_float32\<rparr>"

section \<open>Rewards-to-go (ppo.py, PPO.compute_rtgs)\<close>

text \<open>
  The body of the inner loop of \<open>compute_rtgs\<close>: the state is the pair of the running
  \<open>discounted_reward\<close> and the list \<open>batch_rtgs\<close>; \<open>batch_rtgs.insert(0, x)\<close> puts
  \<open>x\<close> in front.
\<close>

definition rtg_step :: "'f arith \<Rightarrow> 'f \<Rightarrow> 'f \<Rightarrow> 'f \<times> 'f list \<Rightarrow> 'f \<times> 'f list" where
  "rtg_step A gamma rew s =
     (let discounted_reward = py_add A rew (py_mul A (fst s) gamma)
      in (discounted_reward, discounted_reward # snd s))"

text \<open>
  Both loops run over \<open>reversed(...)\<close>; \<open>discounted_reward\<close> is reset to 0 for every
  episode while \<open>batch_rtgs\<close> is shared by all of them. \<open>rtgs_list\<close> is the Python list
  \<open>batch_rtgs\<close> when the loops are done.
\<close>

definition rtgs_list :: "'f arith \<Rightarrow> 'f \<Rightarrow> 'f list list \<Rightarrow> 'f list" where
  "rtgs_list A gamma batch_rews =
     fold (\<lambda>ep_rews batch_rtgs.
             snd (fold (rtg_step A gamma) (rev ep_rews) (py_int A 0, batch_rtgs)))
          (rev batch_rews) []"

text \<open>The last statement converts the list: \<open>torch.tensor(batch_rtgs, dtype=torch.float)\<close>.\<close>

definition compute_rtgs :: "'f arith \<Rightarrow> 'f \<Rightarrow> 'f list list \<Rightarrow> 'f list" where
  "compute_rtgs A gamma batch_rews = map (to_float32 A) (rtgs_list A gamma batch_rews)"

text \<open>
  The accumulated values of one episode, written by recursion from the front; used to
  characterise \<open>rtgs_list\<close>.
\<close>

fun rtg_spec :: "'f arith \<Rightarrow> 'f \<Rightarrow> 'f list \<Rightarrow> 'f list" where
  "rtg_spec A gamma [] = []"
| "rtg_spec A gamma (r # rs) =
     py_add A r (py_mul A (case rtg_spec A gamma rs of [] \<Rightarrow> py_int A 0 | g # _ \<Rightarrow> g) gamma)
       # rtg_spec A gamma rs"

section \<open>Replay memory (agent.py, Agent.remember)\<close>

text \<open>
  \<open>self.memory = deque(maxlen=MAX_MEMOMRY)\<close>. A bounded deque is modelled as the list of
  its items, oldest first. \<open>deque.append\<close> adds on the right and, when the deque is then
  longer than \<open>maxlen\<close>, drops the leftmost item.
\<close>

definition MAX_MEMOMRY :: nat where
  "MAX_MEMOMRY = 100000"

definition deque_append :: "nat \<Rightarrow> 'a list \<Rightarrow> 'a \<Rightarrow> 'a list" where
  "deque_append maxlen d x =
     (let d' = d @ [x] in if maxlen < length d' then tl d' else d')"

text \<open>The stored tuple \<open>(state, action, reward, next_state, done)\<close>.\<close>

type_synonym ('s, 'a) transition = "'s \<times> 'a \<times> real \<times> 's \<times> bool"

definition remember ::
  "('s, 'a) transition list \<Rightarrow> 's \<Rightarrow> 'a \<Rightarrow> real \<Rightarrow> 's \<Rightarrow> bool \<Rightarrow> ('s, 'a) transition list" where
  "remember memory state action reward next_state done =
     deque_append MAX_MEMOMRY memory (state, action, reward, next_state, done)"

text \<open>A sequence of \<open>remember\<close> calls, starting from the memory a fresh agent has.\<close>

definition remember_all :: "('s, 'a) transition list \<Rightarrow> ('s, 'a) transition list" where
  "remember_all xs =
     fold (\<lambda>(state, action, reward, next_state, done) memory.
             remember memory state action reward next_state done) xs []"

section \<open>The PPO agent (ppo.py)\<close>

subsection \<open>Keys, hyperparameters and the external collaborators\<close>

text \<open>The four pygame key constants the code passes to the game.\<close>

datatype key = K_UP | K_RIGHT | K_DOWN | K_LEFT

text \<open>
  The exceptions the modelled code can raise: \<open>ValueError\<close> (numpy's \<open>argmax\<close> of an
  empty array, unpacking an empty \<open>zip\<close>), \<open>AttributeError\<close> (a method called on
  \<open>None\<close>) and \<open>RuntimeError\<close> (\<open>torch.argmax\<close> of an empty tensor).
\<close>

datatype error = ValueError | AttributeError | RuntimeError

text \<open>\<open>PPO._init_hyperparameters\<close>: the fields the training loop reads.\<close>

record 'f hyper =
  timesteps_per_batch :: int
  gamma :: 'f
  n_updates_per_iteration :: int
  clip :: 'f
  lr :: 'f

definition init_hyperparameters :: "ieee hyper" where
  "init_hyperparameters =
     \<lparr>timesteps_per_batch = 10000, gamma = py_float (95 / 100),
      n_updates_per_iteration = 5, clip = py_float (2 / 10), lr = py_float (5 / 1000)\<rparr>"

text \<open>
  The operations of the tensor library that \<open>learn\<close> uses, on the entries of
  \<open>torch.float\<close> tensors: the elementwise \<open>+\<close>, \<open>-\<close>, \<open>*\<close>, \<open>/\<close>, \<open>torch.exp\<close>,
  unary minus, \<open>torch.min\<close> of two tensors and \<open>torch.clamp\<close>; the reductions
  \<open>mean()\<close>, \<open>std()\<close> and \<open>nn.MSELoss()\<close>; and the literal \<open>1e-10\<close>. A
  one-dimensional tensor is the list of its entries.
\<close>

record 'f torch =
  t_add :: "'f \<Rightarrow> 'f \<Rightarrow> 'f"
  t_sub :: "'f \<Rightarrow> 'f \<Rightarrow> 'f"
  t_mul :: "'f \<Rightarrow> 'f \<Rightarrow> 'f"
  t_div :: "'f \<Rightarrow> 'f \<Rightarrow> 'f"
  t_exp :: "'f \<Rightarrow> 'f"
  t_neg :: "'f \<Rightarrow> 'f"
  t_min :: "'f \<Rightarrow> 'f \<Rightarrow> 'f"
  t_clamp :: "'f \<Rightarrow> 'f \<Rightarrow> 'f \<Rightarrow> 'f"
  t_mean :: "'f list \<Rightarrow> 'f"
  t_std :: "'f list \<Rightarrow> 'f"
  mse_loss :: "'f list \<Rightarrow> 'f list \<Rightarrow> 'f"
  lit_1e_10 :: 'f

text \<open>
  A \<open>PPO\<close> object: its hyperparameters, the arithmetic, and the collaborators that are
  not part of the repository, taken as parameters. \<open>'w\<close> is the state of everything
  the calls can change or read: the game, the random source and the parameters and
  optimizer state of the two networks. An observation and an action are vectors of
  numbers.
  \<^item> \<open>env_reset\<close>, \<open>env_step\<close>: \<open>env.reset()\<close> and \<open>env.step(direction)\<close>, the latter
    returning \<open>(obs, rew, done)\<close>;
  \<^item> \<open>actor\<close>, \<open>critic\<close>: the forward passes of the two networks on one observation
    (a batch is evaluated row by row);
  \<^item> \<open>mvn_sample\<close>, \<open>mvn_log_prob\<close>: \<open>dist.sample()\<close> and \<open>dist.log_prob(action)\<close> of
    \<open>MultivariateNormal(mean, cov_mat)\<close>, given the mean;
  \<^item> \<open>argmax\<close>: numpy's \<open>argmax\<close> of a vector, \<open>None\<close> when it raises \<open>ValueError\<close>;
  \<^item> \<open>actor_optim_step\<close>, \<open>critic_optim_step\<close>: \<open>zero_grad(); loss.backward(); step()\<close>
    for the loss built from the given tensors.
\<close>

record ('w, 'f) ppo = "'f hyper" +
  arith :: "'f arith"
  torch :: "'f torch"
  env_reset :: "'w \<Rightarrow> 'f list \<times> 'w"
  env_step :: "key \<Rightarrow> 'w \<Rightarrow> ('f list \<times> 'f \<times> bool) \<times> 'w"
  actor :: "'w \<Rightarrow> 'f list \<Rightarrow> 'f list"
  critic :: "'w \<Rightarrow> 'f list \<Rightarrow> 'f"
  mvn_sample :: "'f list \<Rightarrow> 'w \<Rightarrow> 'f list \<times> 'w"
  mvn_log_prob :: "'f list \<Rightarrow> 'f list \<Rightarrow> 'f"
  argmax :: "'f list \<Rightarrow> nat option"
  actor_optim_step ::
    "'f list list \<Rightarrow> 'f list list \<Rightarrow> 'f list \<Rightarrow> 'f list \<Rightarrow> 'f \<Rightarrow> 'w \<Rightarrow> 'w"
  critic_optim_step :: "'f list list \<Rightarrow> 'f list \<Rightarrow> 'f \<Rightarrow> 'w \<Rightarrow> 'w"

subsection \<open>\<open>PPO.get_action\<close> and the choice of the direction\<close>

definition get_action :: "('w, 'f) ppo \<Rightarrow> 'f list \<Rightarrow> 'w \<Rightarrow> ('f list \<times> 'f) \<times> 'w" where
  "get_action P obs w =
     (let mean = actor P w obs;
          (action, w') = mvn_sample P mean w;
          log_prob = mvn_log_prob P mean action
      in ((action, log_prob), w'))"

text \<open>The \<open>match move\<close> statement; \<open>direction\<close> keeps its initial value when no case matches.\<close>

definition direction_of :: "nat \<Rightarrow> key" where
  "direction_of move =
     (if move = 0 then K_UP
      else if move = 1 then K_RIGHT
      else if move = 2 then K_DOWN
      else if move = 3 then K_LEFT
      else K_UP)"

subsection \<open>\<open>PPO.rollout\<close>\<close>

text \<open>The local variables of \<open>rollout\<close> that live across loop iterations.\<close>

record 'f rollout_state =
  batch_obs :: "'f list list"
  batch_acts :: "'f list list"
  batch_log_probs :: "'f list"
  batch_rews :: "'f list list"
  batch_lens :: "int list"
  t :: int
  ep_rews :: "'f list"
  ep_t :: int

definition rollout_init :: "'f rollout_state" where
  "rollout_init =
     \<lparr>batch_obs = [], batch_acts = [], batch_log_probs = [], batch_rews = [],
      batch_lens = [], t = 0, ep_rews = [], ep_t = 0\<rparr>"

text \<open>
  One pass through the body of \<open>while(not done)\<close>, from the current observation; the
  result is the next observation, the \<open>done\<close> flag, the updated locals and the new world.
\<close>

definition episode_body ::
  "('w, 'f) ppo \<Rightarrow> 'f list \<Rightarrow> 'w \<Rightarrow> 'f rollout_state \<Rightarrow>
     error + ('f list \<times> bool \<times> 'f rollout_state \<times> 'w)" where
  "episode_body P obs w s =
     (let s1 = s\<lparr>ep_t := ep_t s + 1, t := t s + 1, batch_obs := batch_obs s @ [obs]\<rparr>;
          ((action, log_prob), w1) = get_action P obs w
      in case argmax P action of
           None \<Rightarrow> Inl ValueError
         | Some move \<Rightarrow>
             (let direction = direction_of move;
                  ((obs', rew, done), w2) = env_step P direction w1;
                  s2 = s1\<lparr>ep_rews := ep_rews s1 @ [rew],
                          batch_acts := batch_acts s1 @ [action],
                          batch_log_probs := batch_log_probs s1 @ [log_prob]\<rparr>
              in Inr (obs', done, s2, w2)))"

text \<open>
  The loop \<open>while(not done)\<close>. \<open>done\<close> is \<open>False\<close> on entry, so the body runs at least
  once; the loop need not end, and \<open>None\<close> is the run that never returns.
\<close>

partial_function (option) episode_loop ::
  "('w, 'f) ppo \<Rightarrow> 'f list \<Rightarrow> 'w \<Rightarrow> 'f rollout_state \<Rightarrow>
     (error + ('f rollout_state \<times> 'w)) option" where
  "episode_loop P obs w s =
     (case episode_body P obs w s of
        Inl e \<Rightarrow> Some (Inl e)
      | Inr (obs', done, s', w') \<Rightarrow>
          if done then Some (Inr (s', w')) else episode_loop P obs' w' s')"

text \<open>
  The loop \<open>while t < self.timesteps_per_batch\<close>: reset, run one episode, then record
  its length and rewards. (The call of the plotter has no effect on the batch.)
\<close>

partial_function (option) rollout_loop ::
  "('w, 'f) ppo \<Rightarrow> 'w \<Rightarrow> 'f rollout_state \<Rightarrow> (error + ('f rollout_state \<times> 'w)) option" where
  "rollout_loop P w s =
     (if t s < timesteps_per_batch P then
        (let (obs, w0) = env_reset P w
         in Option.bind (episode_loop P obs w0 (s\<lparr>ep_rews := [], ep_t := 0\<rparr>))
              (\<lambda>r. case r of
                      Inl e \<Rightarrow> Some (Inl e)
                    | Inr (s1, w1) \<Rightarrow>
                        rollout_loop P w1
                          (s1\<lparr>batch_lens := batch_lens s1 @ [ep_t s1 + 1],
                              batch_rews := batch_rews s1 @ [ep_rews s1]\<rparr>)))
      else Some (Inr (s, w)))"

text \<open>
  What \<open>rollout\<close> returns: \<open>(batch_obs, batch_acts, batch_log_probs, batch_rtgs, batch_lens)\<close>.
  The first three lists are converted by \<open>torch.tensor(..., dtype=torch.float)\<close>, entry
  by entry; a two-dimensional tensor is the list of its rows.
\<close>

type_synonym 'f batch = "'f list list \<times> 'f list list \<times> 'f list \<times> 'f list \<times> int list"

definition batch_of :: "('w, 'f) ppo \<Rightarrow> 'f rollout_state \<Rightarrow> 'f batch" where
  "batch_of P s =
     (map (map (to_float32 (arith P))) (batch_obs s),
      map (map (to_float32 (arith P))) (batch_acts s),
      map (to_float32 (arith P)) (batch_log_probs s),
      compute_rtgs (arith P) (gamma P) (batch_rews s),
      batch_lens s)"

definition rollout :: "('w, 'f) ppo \<Rightarrow> 'w \<Rightarrow> (error + ('f batch \<times> 'w)) option" where
  "rollout P w =
     map_option (map_sum id (\<lambda>(s, w'). (batch_of P s, w'))) (rollout_loop P w rollout_init)"

subsection \<open>\<open>PPO.evaluate\<close> and \<open>PPO.learn\<close>\<close>

definition evaluate ::
  "('w, 'f) ppo \<Rightarrow> 'w \<Rightarrow> 'f list list \<Rightarrow> 'f list list \<Rightarrow> 'f list \<times> 'f list" where
  "evaluate P w obs acts =
     (map (critic P w) obs,
      map2 (\<lambda>ob a. mvn_log_prob P (actor P w ob) a) obs acts)"

text \<open>
  \<open>A_k = batch_rtgs - V.detach()\<close> followed by
  \<open>A_k = (A_k - A_k.mean()) / (A_k.std() + 1e-10)\<close>.
\<close>

definition advantage :: "'f torch \<Rightarrow> 'f list \<Rightarrow> 'f list \<Rightarrow> 'f list" where
  "advantage T batch_rtgs v =
     (let A = map2 (t_sub T) batch_rtgs v;
          m = t_mean T A;
          sd = t_std T A
      in map (\<lambda>a. t_div T (t_sub T a m) (t_add T sd (lit_1e_10 T))) A)"

text \<open>
  The actor's loss of one inner epoch, from \<open>curr_log_probs\<close>, \<open>batch_log_probs\<close> and
  \<open>A_k\<close>, with the intermediate tensors \<open>ratios\<close>, \<open>surr1\<close> and \<open>surr2\<close> of the code.
  The bounds \<open>1 - self.clip\<close> and \<open>1 + self.clip\<close> are computed by Python. (The three
  tensors have the same length in \<open>learn\<close>.)
\<close>

definition actor_loss_of ::
  "'f arith \<Rightarrow> 'f torch \<Rightarrow> 'f \<Rightarrow> 'f list \<Rightarrow> 'f list \<Rightarrow> 'f list \<Rightarrow> 'f" where
  "actor_loss_of A T eps curr_lp batch_lp Ak =
     (let ratios = map2 (\<lambda>c b. t_exp T (t_sub T c b)) curr_lp batch_lp;
          surr1 = map2 (t_mul T) ratios Ak;
          surr2 = map2 (t_mul T)
                    (map (\<lambda>r. t_clamp T r (py_sub A (py_int A 1) eps) (py_add A (py_int A 1) eps))
                       ratios) Ak
      in t_mean T (map (t_neg T) (map2 (t_min T) surr1 surr2)))"

text \<open>
  The local variables of \<open>learn\<close>, with the world. The fields \<open>L_batch_obs\<close> to
  \<open>L_batch_lens\<close> are the variables \<open>batch_obs\<close> to \<open>batch_lens\<close> of \<open>learn\<close>; a loss
  is \<open>None\<close> before its first assignment.
\<close>

record ('w, 'f) learn_state =
  world :: 'w
  t_so_far :: int
  L_batch_obs :: "'f list list"
  L_batch_acts :: "'f list list"
  L_batch_log_probs :: "'f list"
  L_batch_rtgs :: "'f list"
  L_batch_lens :: "int list"
  V :: "'f list"
  A_k :: "'f list"
  curr_log_probs :: "'f list"
  actor_loss :: "'f option"
  critic_loss :: "'f option"

text \<open>The body of \<open>for _ in range(self.n_updates_per_iteration)\<close>.\<close>

definition update_epoch :: "('w, 'f) ppo \<Rightarrow> ('w, 'f) learn_state \<Rightarrow> ('w, 'f) learn_state" where
  "update_epoch P L =
     (let (v, clp) = evaluate P (world L) (L_batch_obs L) (L_batch_acts L);
          al = actor_loss_of (arith P) (torch P) (clip P) clp (L_batch_log_probs L) (A_k L);
          cl = mse_loss (torch P) v (L_batch_rtgs L);
          w1 = actor_optim_step P (L_batch_obs L) (L_batch_acts L) (L_batch_log_probs L)
                 (A_k L) al (world L);
          w2 = critic_optim_step P (L_batch_obs L) (L_batch_rtgs L) cl w1
      in L\<lparr>V := v, curr_log_probs := clp, actor_loss := Some al, critic_loss := Some cl,
           world := w2\<rparr>)"

text \<open>
  The part of the body of \<open>while t_so_far < total_timesteps\<close> before the inner loop:
  the rollout, the counter, the value estimates and the advantages.
\<close>

definition collect ::
  "('w, 'f) ppo \<Rightarrow> ('w, 'f) learn_state \<Rightarrow> (error + ('w, 'f) learn_state) option" where
  "collect P L =
     map_option (map_sum id
       (\<lambda>((obs, acts, lps, rtgs, lens), w1).
          let v = fst (evaluate P w1 obs acts)
          in L\<lparr>world := w1, L_batch_obs := obs, L_batch_acts := acts,
               L_batch_log_probs := lps, L_batch_rtgs := rtgs, L_batch_lens := lens,
               t_so_far := t_so_far L + sum_list lens,
               V := v, A_k := advantage (torch P) rtgs v\<rparr>))
       (rollout P (world L))"

text \<open>One pass through the body of the outer loop; \<open>range(n)\<close> is empty for \<open>n \<le> 0\<close>.\<close>

definition learn_cycle ::
  "('w, 'f) ppo \<Rightarrow> ('w, 'f) learn_state \<Rightarrow> (error + ('w, 'f) learn_state) option" where
  "learn_cycle P L =
     map_option (map_sum id (update_epoch P ^^ nat (n_updates_per_iteration P))) (collect P L)"

partial_function (option) learn_loop ::
  "('w, 'f) ppo \<Rightarrow> int \<Rightarrow> ('w, 'f) learn_state \<Rightarrow> (error + ('w, 'f) learn_state) option" where
  "learn_loop P total_timesteps L =
     (if t_so_far L < total_timesteps then
        Option.bind (learn_cycle P L)
          (\<lambda>r. case r of
                  Inl e \<Rightarrow> Some (Inl e)
                | Inr L' \<Rightarrow> learn_loop P total_timesteps L')
      else Some (Inr L))"

text \<open>On entry \<open>t_so_far = 0\<close>; the other locals are not yet bound.\<close>

definition learn_init :: "'w \<Rightarrow> ('w, 'f) learn_state" where
  "learn_init w =
     \<lparr>world = w, t_so_far = 0, L_batch_obs = [], L_batch_acts = [], L_batch_log_probs = [],
      L_batch_rtgs = [], L_batch_lens = [], V = [], A_k = [], curr_log_probs = [],
      actor_loss = None, critic_loss = None\<rparr>"

definition learn ::
  "('w, 'f) ppo \<Rightarrow> int \<Rightarrow> 'w \<Rightarrow> (error + ('w, 'f) learn_state) option" where
  "learn P total_timesteps w = learn_loop P total_timesteps (learn_init w)"

subsection \<open>Predicates used in the statements\<close>

text \<open>
  The three lists of \<open>rollout\<close> have one entry per timestep, and entry \<open>i\<close> of the
  actions and of the log-probabilities is what \<open>get_action\<close> returned for entry \<open>i\<close> of
  the observations, in some state of the world.
\<close>

definition aligned :: "('w, 'f) ppo \<Rightarrow> 'f rollout_state \<Rightarrow> bool" where
  "aligned P s \<longleftrightarrow>
     length (batch_acts s) = length (batch_obs s) \<and>
     length (batch_log_probs s) = length (batch_obs s) \<and>
     (\<forall>i<length (batch_obs s).
        \<exists>w. fst (get_action P (batch_obs s ! i) w) = (batch_acts s ! i, batch_log_probs s ! i))"

text \<open>
  The counter \<open>t\<close> is the number of observations, every recorded episode has at least
  one reward, and the recorded length of an episode is its number of rewards plus one.
\<close>

definition counts_ok :: "'f rollout_state \<Rightarrow> bool" where
  "counts_ok s \<longleftrightarrow>
     t s = int (length (batch_obs s)) \<and>
     batch_lens s = map (\<lambda>rs. int (length rs) + 1) (batch_rews s) \<and>
     (\<forall>rs\<in>set (batch_rews s). rs \<noteq> [])"

text \<open>The invariant of the inner loop (inside an episode).\<close>

definition ep_inv :: "('w, 'f) ppo \<Rightarrow> 'f rollout_state \<Rightarrow> bool" where
  "ep_inv P s \<longleftrightarrow>
     counts_ok s \<and> aligned P s \<and>
     ep_t s = int (length (ep_rews s)) \<and>
     length (concat (batch_rews s)) + length (ep_rews s) = length (batch_obs s) \<and>
     int (length (concat (batch_rews s))) < timesteps_per_batch P"

text \<open>The invariant of the outer loop (between episodes).\<close>

definition batch_inv :: "('w, 'f) ppo \<Rightarrow> 'f rollout_state \<Rightarrow> bool" where
  "batch_inv P s \<longleftrightarrow>
     counts_ok s \<and> aligned P s \<and>
     length (concat (batch_rews s)) = length (batch_obs s) \<and>
     (batch_rews s \<noteq> [] \<longrightarrow>
        int (length (concat (butlast (batch_rews s)))) < timesteps_per_batch P)"

text \<open>Every episode, from every observation, world and locals, ends without an exception.\<close>

definition episodes_terminate :: "('w, 'f) ppo \<Rightarrow> bool" where
  "episodes_terminate P \<longleftrightarrow> (\<forall>obs w s. \<exists>r. episode_loop P obs w s = Some (Inr r))"


text \<open>
  The environment ends every episode after one step, and \<open>argmax\<close> does not raise on
  a sampled action.
\<close>

definition one_step_env :: "('w, 'f) ppo \<Rightarrow> bool" where
  "one_step_env P \<longleftrightarrow> (\<forall>k w. \<exists>ob rew w'. env_step P k w = ((ob, rew, True), w'))"

definition argmax_defined :: "('w, 'f) ppo \<Rightarrow> bool" where
  "argmax_defined P \<longleftrightarrow>
     (\<forall>obs w. argmax P (fst (mvn_sample P (actor P w obs) w)) \<noteq> None)"

subsection \<open>A stub environment\<close>

text \<open>
  The environment of the end-to-end scenario: every episode ends after one step with
  reward 1. The world is the number of steps taken so far; the observation is the
  vector \<open>[0]\<close>, the actor answers a constant mean of four entries, sampling returns
  the mean, \<open>argmax\<close> answers 0 on a non-empty vector, and the optimizers change
  nothing. The arithmetic is that of the machine; the tensor library \<open>T\<close> and
  \<open>timesteps_per_batch\<close> are arguments.
\<close>

definition stub_ppo :: "ieee torch \<Rightarrow> int \<Rightarrow> (nat, ieee) ppo" where
  "stub_ppo T n =
     \<lparr>timesteps_per_batch = n, gamma = py_float (95 / 100), n_updates_per_iteration = 5,
      clip = py_float (2 / 10), lr = py_float (5 / 1000),
      arith = ieee_arith, torch = T,
      env_reset = (\<lambda>w. ([Fin 0], w)),
      env_step = (\<lambda>k w. (([Fin 0], Fin 1, True), Suc w)),
      actor = (\<lambda>w ob. [Fin 0, Fin 0, Fin 0, Fin 0]),
      critic = (\<lambda>w ob. Fin 0),
      mvn_sample = (\<lambda>m w. (m, w)),
      mvn_log_prob = (\<lambda>m a. Fin 0),
      argmax = (\<lambda>xs. if xs = [] then None else Some 0),
      actor_optim_step = (\<lambda>obs acts lps a l w. w),
      critic_optim_step = (\<lambda>obs rtgs l w. w)\<rparr>"

section \<open>The DQN agent (agent.py)\<close>

definition BATCH_SIZE :: nat where
  "BATCH_SIZE = 1000"

text \<open>
  \<open>Agent\<close>: its attributes. \<open>model\<close> and \<open>trainer\<close> are \<open>None\<close> in \<open>__init__\<close>; they are
  handles of type \<open>'m\<close> and \<open>'t\<close> when set. A state of the game is the integer vector
  \<open>get_state\<close> builds; an action is a key.
\<close>

record ('m, 't) agent =
  n_games :: int
  epsilon :: int
  agent_gamma :: int
  memory :: "(int list, key) transition list"
  model :: "'m option"
  trainer :: "'t option"

definition agent_init :: "('m, 't) agent" where
  "agent_init =
     \<lparr>n_games = 0, epsilon = 0, agent_gamma = 0, memory = [], model = None, trainer = None\<rparr>"

text \<open>The two shapes of arguments \<open>trainer.train_step\<close> is called with.\<close>

datatype train_args =
  One "(int list, key) transition"
| Many "(int list, key) transition list"

text \<open>
  The collaborators of the agent, taken as parameters: the game (\<open>'g\<close> is its state),
  the random source (\<open>'r\<close>) and the network objects, whose mutable state is \<open>'n\<close>.
  \<open>randint a b\<close> is \<open>random.randint(a, b)\<close>, \<open>sample xs k\<close> is \<open>random.sample(xs, k)\<close>;
  \<open>predict\<close> returns a tensor (type \<open>'p\<close>) and \<open>argmax_item\<close> is
  \<open>torch.argmax(prediction).item()\<close>, \<open>None\<close> when it raises.
\<close>

record ('g, 'r, 'n, 'm, 't, 'p) dqn =
  get_pacman_pos :: "'g \<Rightarrow> int \<times> int"
  get_ghosts_pos :: "'g \<Rightarrow> (int \<times> int) list"
  get_surroundings :: "'g \<Rightarrow> int \<times> int \<times> int \<times> int"
  get_score :: "'g \<Rightarrow> int"
  update :: "key \<Rightarrow> 'g \<Rightarrow> (real \<times> bool \<times> int) \<times> 'g"
  randint :: "int \<Rightarrow> int \<Rightarrow> 'r \<Rightarrow> int \<times> 'r"
  sample :: "(int list, key) transition list \<Rightarrow> nat \<Rightarrow> 'r \<Rightarrow> (int list, key) transition list \<times> 'r"
  predict :: "'m \<Rightarrow> 'n \<Rightarrow> int list \<Rightarrow> 'p"
  argmax_item :: "'p \<Rightarrow> int option"
  train_step :: "'t \<Rightarrow> train_args \<Rightarrow> 'n \<Rightarrow> 'n"

definition get_state :: "('g, 'r, 'n, 'm, 't, 'p) dqn \<Rightarrow> 'g \<Rightarrow> int list" where
  "get_state D game =
     (let (pac_row, pac_col) = get_pacman_pos D game;
          ghosts_pos = get_ghosts_pos D game;
          (up, right, down, left) = get_surroundings D game;
          score = get_score D game
      in [pac_row, pac_col, up, right, down, left, score]
         @ concat (map (\<lambda>pos. [fst pos, snd pos]) ghosts_pos))"

text \<open>The \<open>match move\<close> statements of \<open>get_action\<close>; \<open>final_move\<close> starts as \<open>K_UP\<close>.\<close>

definition final_move_of :: "int \<Rightarrow> key" where
  "final_move_of move =
     (if move = 0 then K_UP
      else if move = 1 then K_RIGHT
      else if move = 2 then K_DOWN
      else if move = 3 then K_LEFT
      else K_UP)"

text \<open>\<open>Agent.get_action\<close>: the move, the agent (its \<open>epsilon\<close> is assigned) and the random source.\<close>

definition agent_get_action ::
  "('g, 'r, 'n, 'm, 't, 'p) dqn \<Rightarrow> ('m, 't) agent \<Rightarrow> 'n \<Rightarrow> 'r \<Rightarrow> int list \<Rightarrow>
     error + (key \<times> ('m, 't) agent \<times> 'r)" where
  "agent_get_action D a h r state =
     (let a1 = a\<lparr>epsilon := 80 - n_games a\<rparr>;
          (x, r1) = randint D 0 200 r
      in if x < epsilon a1 then
           (let (move, r2) = randint D 0 3 r1 in Inr (final_move_of move, a1, r2))
         else
           (case model a1 of
              None \<Rightarrow> Inl AttributeError
            | Some m \<Rightarrow>
                (case argmax_item D (predict D m h state) of
                   None \<Rightarrow> Inl RuntimeError
                 | Some move \<Rightarrow> Inr (final_move_of move, a1, r1))))"

definition train_short_memory ::
  "('g, 'r, 'n, 'm, 't, 'p) dqn \<Rightarrow> ('m, 't) agent \<Rightarrow> 'n \<Rightarrow> (int list, key) transition \<Rightarrow> error + 'n" where
  "train_short_memory D a h tr =
     (case trainer a of
        None \<Rightarrow> Inl AttributeError
      | Some tn \<Rightarrow> Inr (train_step D tn (One tr) h))"

definition train_long_memory ::
  "('g, 'r, 'n, 'm, 't, 'p) dqn \<Rightarrow> ('m, 't) agent \<Rightarrow> 'n \<Rightarrow> 'r \<Rightarrow> error + ('n \<times> 'r)" where
  "train_long_memory D a h r =
     (let (mini_sample, r1) =
            (if BATCH_SIZE < length (memory a) then sample D (memory a) BATCH_SIZE r
             else (memory a, r))
      in if mini_sample = [] then Inl ValueError
         else case trainer a of
                None \<Rightarrow> Inl AttributeError
              | Some tn \<Rightarrow> Inr (train_step D tn (Many mini_sample) h, r1))"

text \<open>
  The state of \<open>train\<close>: the agent, the game, the random source, the network objects and
  the local \<open>record\<close>.
\<close>

record ('g, 'r, 'n, 'm, 't) train_state =
  the_agent :: "('m, 't) agent"
  the_game :: 'g
  rng :: 'r
  heap :: 'n
  record_score :: int

text \<open>
  The calls in which one iteration of \<open>while True\<close> hands a move to a collaborator, in
  the order they are made.
\<close>

datatype call = GameUpdate key | TrainShort key | Remember key


text \<open>
  One iteration of the loop of \<open>train\<close>: the calls made and either the exception that
  ended the iteration or the state after it.
\<close>

definition train_iter ::
  "('g, 'r, 'n, 'm, 't, 'p) dqn \<Rightarrow> ('g, 'r, 'n, 'm, 't) train_state \<Rightarrow>
     call list \<times> (error + ('g, 'r, 'n, 'm, 't) train_state)" where
  "train_iter D st =
     (let state_old = get_state D (the_game st)
      in case agent_get_action D (the_agent st) (heap st) (rng st) state_old of
           Inl e \<Rightarrow> ([], Inl e)
         | Inr (final_move0, a1, r1) \<Rightarrow>
             (let final_move = K_RIGHT;
                  ((reward, done, score), g1) = update D final_move (the_game st);
                  state_new = get_state D g1
              in case train_short_memory D a1 (heap st)
                        (state_old, final_move, reward, state_new, done) of
                   Inl e \<Rightarrow> ([GameUpdate final_move], Inl e)
                 | Inr h1 \<Rightarrow>
                     (let a2 = a1\<lparr>memory :=
                                 remember (memory a1) state_old final_move reward state_new done\<rparr>;
                          calls = [GameUpdate final_move, TrainShort final_move,
                                   Remember final_move]
                      in if done then
                           (let a3 = a2\<lparr>n_games := n_games a2 + 1\<rparr>
                            in case train_long_memory D a3 h1 r1 of
                                 Inl e \<Rightarrow> (calls, Inl e)
                               | Inr (h2, r2) \<Rightarrow>
                                   (calls,
                                    Inr (st\<lparr>the_agent := a3, the_game := g1, rng := r2, heap := h2,
                                            record_score :=
                                              (if record_score st < score then score
                                               else record_score st)\<rparr>)))
                         else
                           (calls,
                            Inr (st\<lparr>the_agent := a2, the_game := g1, rng := r1,
                                    heap := h1\<rparr>)))))"

text \<open>
  A stub game for the agent: the state of the game is a step count, every step gives
  reward 1 and ends the game; \<open>randint\<close> returns its lower bound; the largest entry of
  every prediction is the third.
\<close>

definition stub_dqn :: "(nat, unit, nat, unit, unit, unit) dqn" where
  "stub_dqn =
     \<lparr>get_pacman_pos = (\<lambda>g. (int g, 0)),
      get_ghosts_pos = (\<lambda>g. []),
      get_surroundings = (\<lambda>g. (0, 0, 0, 0)),
      get_score = (\<lambda>g. int g),
      update = (\<lambda>k g. ((1, True, int g + 1), Suc g)),
      randint = (\<lambda>a b r. (a, r)),
      sample = (\<lambda>xs k r. (take k xs, r)),
      predict = (\<lambda>m h st. ()),
      argmax_item = (\<lambda>p. Some 2),
      train_step = (\<lambda>tn args h. Suc h)\<rparr>"

section \<open>Properties of the rewards-to-go\<close>

lemma inner_fold:
  "fold (rtg_step A d) (rev rs) (py_int A 0, out) =
     ((case rtg_spec A d rs of [] \<Rightarrow> py_int A 0 | g # _ \<Rightarrow> g), rtg_spec A d rs @ out)"
  by (induction rs) (simp_all add: rtg_step_def Let_def)

lemma outer_fold:
  "fold (\<lambda>ep_rews batch_rtgs.
           snd (fold (rtg_step A d) (rev ep_rews) (py_int A 0, batch_rtgs)))
        (rev eps) out = concat (map (rtg_spec A d) eps) @ out"
  by (induction eps) (simp_all add: inner_fold)

lemma rtgs_list_concat: "rtgs_list A d eps = concat (map (rtg_spec A d) eps)"
  by (simp add: rtgs_list_def outer_fold)

lemma length_rtg_spec: "length (rtg_spec A d rs) = length rs"
  by (induction rs) simp_all

lemma length_compute_rtgs: "length (compute_rtgs A d eps) = length (concat eps)"
  by (simp add: compute_rtgs_def rtgs_list_concat length_concat length_rtg_spec comp_def)

lemma rtg_spec_nth:
  "i < length rs \<Longrightarrow>
   rtg_spec A d rs ! i =
     py_add A (rs ! i)
       (py_mul A (if Suc i < length rs then rtg_spec A d rs ! Suc i else py_int A 0) d)"
proof (induction rs arbitrary: i)
  case Nil
  then show ?case by simp
next
  case (Cons r rs)
  show ?case
  proof (cases i)
    case 0
    then show ?thesis by (cases rs) simp_all
  next
    case (Suc j)
    with Cons show ?thesis by simp
  qed
qed

subsection \<open>Evaluating the rounding\<close>

lemma round_binary_eval:
  assumes x: "0 < x"
    and lo: "2 powr real_of_int e \<le> x" and hi: "x < 2 powr real_of_int (e + 1)"
    and emin: "emin \<le> e"
    and n: "rne (x / 2 powr real_of_int (e - (int p - 1))) = n"
    and fin: "of_int n * 2 powr real_of_int (e - (int p - 1)) < 2 powr real_of_int (emax + 1)"
  shows "round_binary p emin emax x = Fin (of_int n * 2 powr real_of_int (e - (int p - 1)))"
proof -
  have "\<lfloor>log 2 x\<rfloor> = e"
    using x lo hi by (subst floor_log_eq_powr_iff) simp_all
  then have e: "max \<lfloor>log 2 \<bar>x\<bar>\<rfloor> emin = e" using x emin by simp
  show ?thesis
    using x n fin unfolding round_binary_def e Let_def by simp
qed

lemma binary64_0: "binary64 0 = Fin 0"
  by (simp add: binary64_def round_binary_def)

lemma binary64_1: "binary64 1 = Fin 1"
  unfolding binary64_def
  by (subst round_binary_eval [where e = 0 and n = "2 ^ 52"])
     (simp_all add: rne_def Let_def powr_neg_numeral)

lemma binary32_1: "binary32 1 = Fin 1"
  unfolding binary32_def
  by (subst round_binary_eval [where e = 0 and n = "2 ^ 23"])
     (simp_all add: rne_def Let_def powr_neg_numeral)

lemma py_float_095: "py_float (19 / 20) = Fin (4278419646001971 / 4503599627370496)"
  unfolding py_float_def binary64_def
  by (subst round_binary_eval [where e = "- 1" and n = 8556839292003942])
     (simp_all add: rne_def Let_def powr_neg_numeral)

lemma binary64_gamma:
  "binary64 (4278419646001971 / 4503599627370496) = Fin (4278419646001971 / 4503599627370496)"
  unfolding binary64_def
  by (subst round_binary_eval [where e = "- 1" and n = 8556839292003942])
     (simp_all add: rne_def Let_def powr_neg_numeral)

lemma binary64_1_gamma:
  "binary64 (8782019273372467 / 4503599627370496) = Fin (8782019273372467 / 4503599627370496)"
  unfolding binary64_def
  by (subst round_binary_eval [where e = 0 and n = 8782019273372467])
     (simp_all add: rne_def Let_def powr_neg_numeral)

lemma binary32_1_gamma:
  "binary32 (8782019273372467 / 4503599627370496) = Fin (8178893 / 4194304)"
  unfolding binary32_def
  by (subst round_binary_eval [where e = 0 and n = 16357786])
     (simp_all add: rne_def Let_def powr_neg_numeral)

lemma py_float_01: "py_float (1 / 10) = Fin (3602879701896397 / 36028797018963968)"
  unfolding py_float_def binary64_def
  by (subst round_binary_eval [where e = "- 4" and n = 7205759403792794])
     (simp_all add: rne_def Let_def powr_neg_numeral)

lemma binary64_01:
  "binary64 (3602879701896397 / 36028797018963968) = Fin (3602879701896397 / 36028797018963968)"
  unfolding binary64_def
  by (subst round_binary_eval [where e = "- 4" and n = 7205759403792794])
     (simp_all add: rne_def Let_def powr_neg_numeral)

lemma binary32_01:
  "binary32 (3602879701896397 / 36028797018963968) = Fin (13421773 / 134217728)"
  unfolding binary32_def
  by (subst round_binary_eval [where e = "- 4" and n = 13421773])
     (simp_all add: rne_def Let_def powr_neg_numeral)

lemma rtgs_example_01:
  "compute_rtgs ieee_arith (py_float (95 / 100)) [[py_float (1 / 10)]]
     = [Fin (13421773 / 134217728)]"
  by (simp add: compute_rtgs_def rtgs_list_def rtg_step_def Let_def ieee_arith_def py_float_095
      py_float_01 binary64_0 binary64_01 binary32_01)

lemma rtgs_example:
  "compute_rtgs ieee_arith (py_float (95 / 100)) [[Fin 1, Fin 1]] = [Fin (16357786 / 8388608), Fin 1]"
  by (simp add: compute_rtgs_def rtgs_list_def rtg_step_def Let_def ieee_arith_def py_float_095
      binary64_0 binary64_1 binary32_1 binary64_gamma binary64_1_gamma binary32_1_gamma)

text \<open>
  C1 (amended). The rewards-to-go of a batch are those of its episodes, one episode
  after the other in the order of the batch. For an episode \<open>rs\<close> they are the
  conversions to \<open>torch.float\<close> of the accumulated values, one per reward in the order
  of the timesteps; each accumulated value is its reward plus the next accumulated
  value times \<open>d\<close>, and the last one is the last reward plus 0 times \<open>d\<close>, all in
  Python's arithmetic.
\<close>

theorem compute_rtgs_recurrence:
  "compute_rtgs A d eps = concat (map (\<lambda>rs. compute_rtgs A d [rs]) eps) \<and>
   compute_rtgs A d [rs] = map (to_float32 A) (rtgs_list A d [rs]) \<and>
   length (rtgs_list A d [rs]) = length rs \<and>
   (\<forall>i. Suc i < length rs \<longrightarrow>
      rtgs_list A d [rs] ! i = py_add A (rs ! i) (py_mul A (rtgs_list A d [rs] ! Suc i) d)) \<and>
   (\<forall>i. Suc i = length rs \<longrightarrow>
      rtgs_list A d [rs] ! i = py_add A (rs ! i) (py_mul A (py_int A 0) d))"
proof -
  have one: "rtgs_list A d [xs] = rtg_spec A d xs" for xs
    by (simp add: rtgs_list_concat)
  have "compute_rtgs A d eps = concat (map (\<lambda>rs. compute_rtgs A d [rs]) eps)"
    by (simp add: compute_rtgs_def one rtgs_list_concat map_concat comp_def)
  moreover have "compute_rtgs A d [rs] = map (to_float32 A) (rtgs_list A d [rs])"
    by (simp add: compute_rtgs_def)
  ultimately show ?thesis
    unfolding one by (simp add: length_rtg_spec rtg_spec_nth)
qed

theorem compute_rtgs_recurrence_witness:
  "compute_rtgs ieee_arith (py_float (95 / 100)) [[Fin 1, Fin 1]]
     = map ieee_to_float32 (rtgs_list ieee_arith (py_float (95 / 100)) [[Fin 1, Fin 1]]) \<and>
   rtgs_list ieee_arith (py_float (95 / 100)) [[Fin 1, Fin 1]] ! 0
     = ieee_add (Fin 1)
         (ieee_mul (rtgs_list ieee_arith (py_float (95 / 100)) [[Fin 1, Fin 1]] ! 1)
            (py_float (95 / 100))) \<and>
   rtgs_list ieee_arith (py_float (95 / 100)) [[Fin 1, Fin 1]] ! 1
     = ieee_add (Fin 1) (ieee_mul (Fin 0) (py_float (95 / 100)))"
proof -
  have h: "Suc 0 < length [Fin 1, Fin 1]" "Suc 1 = length [Fin 1, Fin 1]"
    by simp_all
  from h compute_rtgs_recurrence
    [of ieee_arith "py_float (95 / 100)" "[[Fin 1, Fin 1]]" "[Fin 1, Fin 1]"]
  show ?thesis by (simp add: ieee_arith_def)
qed

text \<open>
  C1 as stated fails in the arithmetic of the machine. With the discount 0.95 and the
  rewards \<open>[1, 1]\<close> of one episode the result is \<open>[16357786 / 2^23, 1]\<close>, while the
  first reward plus the discount times the second result is
  \<open>17564038546744934 / 2^53\<close>, in Python's arithmetic as in exact arithmetic. With the
  single reward 0.1 the result is \<open>13421773 / 2^27\<close>, not the reward
  \<open>3602879701896397 / 2^55\<close>.
\<close>

theorem compute_rtgs_recurrence_counterexample:
  "compute_rtgs ieee_arith (py_float (95 / 100)) [[Fin 1, Fin 1]]
     = [Fin (16357786 / 8388608), Fin 1] \<and>
   ieee_add (Fin 1) (ieee_mul (py_float (95 / 100)) (Fin 1))
     = Fin (17564038546744934 / 9007199254740992) \<and>
   py_float (95 / 100) = Fin (8556839292003942 / 9007199254740992) \<and>
   (1 :: real) + 8556839292003942 / 9007199254740992 * 1 = 17564038546744934 / 9007199254740992 \<and>
   Fin (16357786 / 8388608) \<noteq> Fin (17564038546744934 / 9007199254740992) \<and>
   compute_rtgs ieee_arith (py_float (95 / 100)) [[py_float (1 / 10)]]
     = [Fin (13421773 / 134217728)] \<and>
   py_float (1 / 10) = Fin (3602879701896397 / 36028797018963968) \<and>
   Fin (13421773 / 134217728) \<noteq> Fin (3602879701896397 / 36028797018963968)"
  using rtgs_example rtgs_example_01
  by (simp add: py_float_095 py_float_01 binary64_gamma binary64_1_gamma)

section \<open>Properties of the replay memory\<close>

lemma deque_append_drop:
  "length d \<le> n \<Longrightarrow> deque_append n d x = drop (Suc (length d) - n) (d @ [x])"
proof (cases "length d = n")
  case True
  then show ?thesis
    by (cases d) (auto simp: deque_append_def Let_def drop_Suc)
next
  case False
  moreover assume "length d \<le> n"
  ultimately show ?thesis
    by (simp add: deque_append_def Let_def)
qed

lemma fold_deque_append:
  "fold (\<lambda>x d. deque_append n d x) xs [] = drop (length xs - n) xs"
proof (induction xs rule: rev_induct)
  case Nil
  then show ?case by simp
next
  case (snoc x xs)
  let ?d = "drop (length xs - n) xs"
  have "deque_append n ?d x = drop (Suc (length ?d) - n) (?d @ [x])"
    by (rule deque_append_drop) simp
  also have "\<dots> = drop (Suc (length xs) - n) (xs @ [x])"
  proof (cases "length xs < n")
    case True
    then show ?thesis by simp
  next
    case False
    then have "length ?d = n" by simp
    with False show ?thesis by (simp add: Suc_diff_le drop_Suc tl_drop)
  qed
  finally show ?case using snoc by simp
qed

lemma remember_all_drop: "remember_all xs = drop (length xs - MAX_MEMOMRY) xs"
proof -
  have eq: "(\<lambda>(state, action, reward, next_state, done) memory.
            remember memory state action reward next_state done)
        = (\<lambda>x d. deque_append MAX_MEMOMRY d x)"
    by (intro ext) (simp add: remember_def split: prod.splits)
  show ?thesis
    unfolding remember_all_def eq by (rule fold_deque_append)
qed

text \<open>
  C9. The replay memory never holds more than 100000 transitions: a \<open>remember\<close> call
  keeps the bound, and so does any sequence of calls on a fresh agent. On a full memory a
  call drops exactly the oldest transition and adds the new one at the end. After 100001
  calls the memory is the sequence of the last 100000 transitions given, and when they
  are pairwise different the first one given is no longer in it.
\<close>

theorem replay_memory_bounded_fifo:
  "(length mem \<le> 100000 \<longrightarrow> length (remember mem s a r s' dn) \<le> 100000) \<and>
   length (remember_all xs) \<le> 100000 \<and>
   (length mem = 100000 \<longrightarrow>
      remember mem s a r s' dn = tl mem @ [(s, a, r, s', dn)]) \<and>
   (length xs = 100001 \<longrightarrow>
      length (remember_all xs) = 100000 \<and> remember_all xs = tl xs \<and>
      (distinct xs \<longrightarrow> hd xs \<notin> set (remember_all xs)))"
proof (intro conjI impI)
  show "length (remember mem s a r s' dn) \<le> 100000" if "length mem \<le> 100000"
    using that by (simp add: remember_def deque_append_def MAX_MEMOMRY_def Let_def)
  show "length (remember_all xs) \<le> 100000"
    by (simp add: remember_all_drop MAX_MEMOMRY_def)
  show "remember mem s a r s' dn = tl mem @ [(s, a, r, s', dn)]"
    if "length mem = 100000"
    using that by (cases mem) (simp_all add: remember_def deque_append_def MAX_MEMOMRY_def Let_def)
  assume len: "length xs = 100001"
  then show "length (remember_all xs) = 100000"
    by (simp add: remember_all_drop MAX_MEMOMRY_def)
  from len show tl: "remember_all xs = tl xs"
    by (simp add: remember_all_drop MAX_MEMOMRY_def drop_Suc)
  assume "distinct xs"
  with len show "hd xs \<notin> set (remember_all xs)"
    unfolding tl by (cases xs) auto
qed

theorem replay_memory_bounded_fifo_witness:
  "length (remember [] (0::nat) K_RIGHT 1 1 False) \<le> 100000 \<and>
   remember (replicate 100000 (0::nat, K_RIGHT, 0, 0::nat, False)) 7 K_UP 1 8 True =
     tl (replicate 100000 (0, K_RIGHT, 0, 0, False)) @ [(7, K_UP, 1, 8, True)] \<and>
   length (remember_all (map (\<lambda>i. (i, K_RIGHT, 0, Suc i, False)) [0..<100001])) = 100000 \<and>
   hd (map (\<lambda>i. (i, K_RIGHT, 0, Suc i, False)) [0..<100001])
     \<notin> set (remember_all (map (\<lambda>i. (i, K_RIGHT, 0, Suc i, False)) [0..<100001]))"
proof -
  let ?xs = "map (\<lambda>i. (i, K_RIGHT, 0::real, Suc i, False)) [0..<100001]"
  have h1: "length ([] :: (nat, key) transition list) \<le> 100000" by simp
  have h2: "length (replicate 100000 (0::nat, K_RIGHT, 0::real, 0::nat, False)) = 100000"
    by simp
  have h3: "length ?xs = 100001" by simp
  have h4: "distinct ?xs" by (simp add: distinct_map inj_on_def)
  from h1 replay_memory_bounded_fifo [of "[]" 0 K_RIGHT 1 1 False ?xs]
  have c1: "length (remember [] (0::nat) K_RIGHT 1 1 False) \<le> 100000" by blast
  from h2 replay_memory_bounded_fifo
    [of "replicate 100000 (0, K_RIGHT, 0, 0, False)" 7 K_UP 1 8 True ?xs]
  have c2: "remember (replicate 100000 (0::nat, K_RIGHT, 0, 0::nat, False)) 7 K_UP 1 8 True =
     tl (replicate 100000 (0, K_RIGHT, 0, 0, False)) @ [(7, K_UP, 1, 8, True)]" by blast
  from h3 h4 replay_memory_bounded_fifo [of "[]" 0 K_RIGHT 1 1 False ?xs]
  have c3: "length (remember_all ?xs) = 100000 \<and> hd ?xs \<notin> set (remember_all ?xs)" by blast
  from c1 c2 c3 show ?thesis by blast
qed

section \<open>Properties of the rollout\<close>

lemma episode_body_Inr:
  assumes "episode_body P obs w s = Inr (obs', d, s', w')"
  shows "\<exists>action log_prob w1 move rew.
           get_action P obs w = ((action, log_prob), w1) \<and>
           argmax P action = Some move \<and>
           env_step P (direction_of move) w1 = ((obs', rew, d), w') \<and>
           s' = s\<lparr>ep_t := ep_t s + 1, t := t s + 1, batch_obs := batch_obs s @ [obs],
                  ep_rews := ep_rews s @ [rew], batch_acts := batch_acts s @ [action],
                  batch_log_probs := batch_log_probs s @ [log_prob]\<rparr>"
  using assms
  by (auto simp: episode_body_def Let_def split: prod.splits option.splits)

lemma aligned_step:
  assumes "aligned P s" "get_action P obs w = ((action, log_prob), w1)"
  shows "aligned P (s\<lparr>ep_t := a, t := b, batch_obs := batch_obs s @ [obs],
                  ep_rews := c, batch_acts := batch_acts s @ [action],
                  batch_log_probs := batch_log_probs s @ [log_prob]\<rparr>)"
proof -
  from assms(1) have la: "length (batch_acts s) = length (batch_obs s)"
    and ll: "length (batch_log_probs s) = length (batch_obs s)"
    and al: "\<And>i. i < length (batch_obs s) \<Longrightarrow>
        \<exists>w. fst (get_action P (batch_obs s ! i) w) = (batch_acts s ! i, batch_log_probs s ! i)"
    by (auto simp: aligned_def)
  have "\<exists>w. fst (get_action P ((batch_obs s @ [obs]) ! i) w) =
            ((batch_acts s @ [action]) ! i, (batch_log_probs s @ [log_prob]) ! i)"
    if "i < Suc (length (batch_obs s))" for i
  proof (cases "i < length (batch_obs s)")
    case True
    with al [OF True] la ll show ?thesis by (simp add: nth_append)
  next
    case False
    with that have "i = length (batch_obs s)" by simp
    with la ll assms(2) show ?thesis by (auto simp: nth_append intro!: exI [of _ w])
  qed
  with la ll show ?thesis by (simp add: aligned_def)
qed

lemma ep_inv_body:
  assumes "ep_inv P s" "episode_body P obs w s = Inr (obs', d, s', w')"
  shows "ep_inv P s' \<and> ep_rews s' \<noteq> []"
proof -
  from episode_body_Inr [OF assms(2)] obtain action log_prob w1 move rew where
    ga: "get_action P obs w = ((action, log_prob), w1)"
    and s': "s' = s\<lparr>ep_t := ep_t s + 1, t := t s + 1, batch_obs := batch_obs s @ [obs],
                  ep_rews := ep_rews s @ [rew], batch_acts := batch_acts s @ [action],
                  batch_log_probs := batch_log_probs s @ [log_prob]\<rparr>"
    by blast
  from assms(1) have "aligned P s" by (simp add: ep_inv_def)
  from aligned_step [OF this ga] have "aligned P s'" unfolding s' .
  moreover from assms(1) have "counts_ok s'" by (simp add: s' ep_inv_def counts_ok_def)
  ultimately show ?thesis using assms(1) by (simp add: s' ep_inv_def)
qed



lemma episode_loop_induct:
  assumes run: "episode_loop P obs w s = Some y"
    and step: "\<And>f obs w s y.
        (\<And>obs w s y. f obs w s = Some y \<Longrightarrow> R obs w s y) \<Longrightarrow>
        (case episode_body P obs w s of
           Inl e \<Rightarrow> Some (Inl e)
         | Inr (obs', done, s', w') \<Rightarrow>
             if done then Some (Inr (s', w')) else f obs' w' s') = Some y \<Longrightarrow>
        R obs w s y"
  shows "R obs w s y"
proof -
  let ?Pa = "\<lambda>x y. fst (fst (fst x)) = P \<longrightarrow> R (snd (fst (fst x))) (snd (fst x)) (snd x) y"
  have "?Pa (((P, obs), w), s) y"
  proof (rule episode_loop.raw_induct [where Pa = ?Pa, OF _ run])
    fix g P' obs w s y
    assume IH: "\<And>obs w s b y. g obs w s b = Some y \<Longrightarrow> ?Pa (((obs, w), s), b) y"
      and eq: "(case episode_body P' obs w s of
           Inl e \<Rightarrow> Some (Inl e)
         | Inr (obs', done, s', w') \<Rightarrow>
             if done then Some (Inr (s', w')) else g P' obs' w' s') = Some y"
    show "?Pa (((P', obs), w), s) y"
    proof (simp, intro impI)
      assume p: "P' = P"
      show "R obs w s y"
      proof (rule step [of "g P"])
        show "R obs w s y" if "g P obs w s = Some y" for obs w s y
          using IH [OF that] by simp
        show "(case episode_body P obs w s of
           Inl e \<Rightarrow> Some (Inl e)
         | Inr (obs', done, s', w') \<Rightarrow>
             if done then Some (Inr (s', w')) else g P obs' w' s') = Some y"
          using eq unfolding p .
      qed
    qed
  qed
  then show ?thesis by simp
qed


lemma episode_loop_final:
  fixes P :: "('w, 'f) ppo"
  assumes run: "episode_loop P obs w s = Some (Inr (s', w'))"
    and start: "Q s"
    and step: "\<And>obs w s obs1 s1 w1.
                 Q s \<Longrightarrow> episode_body P obs w s = Inr (obs1, False, s1, w1) \<Longrightarrow> Q s1"
  shows "\<exists>obs0 w0 s0 obs1. Q s0 \<and> episode_body P obs0 w0 s0 = Inr (obs1, True, s', w')"
proof -
  define R where "R \<equiv> \<lambda>(obs::'f list) (w::'w) s (y :: error + 'f rollout_state \<times> 'w). Q s \<longrightarrow> (\<forall>s' w'. y = Inr (s', w') \<longrightarrow>
          (\<exists>obs0 w0 s0 obs1. Q s0 \<and> episode_body P obs0 w0 s0 = Inr (obs1, True, s', w')))"
  have "R obs w s (Inr (s', w'))"
  proof (rule episode_loop_induct [OF run])
    fix f obs w s y
    assume IH: "\<And>obs w s y. f obs w s = Some y \<Longrightarrow> R obs w s y"
      and eq: "(case episode_body P obs w s of
           Inl e \<Rightarrow> Some (Inl e)
         | Inr (obs', done, s', w') \<Rightarrow>
             if done then Some (Inr (s', w')) else f obs' w' s') = Some y"
    show "R obs w s y"
      unfolding R_def
    proof (intro impI allI)
      fix s' w'
      assume q: "Q s" and y: "y = Inr (s', w')"
      show "\<exists>obs0 w0 s0 obs1. Q s0 \<and> episode_body P obs0 w0 s0 = Inr (obs1, True, s', w')"
      proof (cases "episode_body P obs w s")
        case (Inl e)
        with eq y show ?thesis by simp
      next
        case (Inr r)
        obtain obs1 d s1 w1 where r: "r = (obs1, d, s1, w1)" by (cases r) auto
        show ?thesis
        proof (cases d)
          case True
          with eq y Inr r have "s1 = s'" "w1 = w'" by simp_all
          with Inr r True have "episode_body P obs w s = Inr (obs1, True, s', w')" by simp
          with q show ?thesis by blast
        next
          case False
          with eq Inr r have "f obs1 w1 s1 = Some y" by simp
          moreover from step [OF q] Inr r False have "Q s1" by simp
          ultimately show ?thesis using IH y unfolding R_def by blast
        qed
      qed
    qed
  qed
  with start show ?thesis unfolding R_def by blast
qed


lemma rollout_loop_induct:
  assumes run: "rollout_loop P w s = Some y"
    and step: "\<And>f w s y.
        (\<And>w s y. f w s = Some y \<Longrightarrow> R w s y) \<Longrightarrow>
        (if t s < timesteps_per_batch P then
           (let (obs, w0) = env_reset P w
            in Option.bind (episode_loop P obs w0 (s\<lparr>ep_rews := [], ep_t := 0\<rparr>))
                 (\<lambda>r. case r of
                      Inl e \<Rightarrow> Some (Inl e)
                    | Inr (s1, w1) \<Rightarrow>
                        f w1 (s1\<lparr>batch_lens := batch_lens s1 @ [ep_t s1 + 1],
                                 batch_rews := batch_rews s1 @ [ep_rews s1]\<rparr>)))
         else Some (Inr (s, w))) = Some y \<Longrightarrow>
        R w s y"
  shows "R w s y"
proof -
  let ?Pa = "\<lambda>x y. fst (fst x) = P \<longrightarrow> R (snd (fst x)) (snd x) y"
  have "?Pa ((P, w), s) y"
  proof (rule rollout_loop.raw_induct [where Pa = ?Pa, OF _ run])
    fix g P' w s y
    assume IH: "\<And>w s b y. g w s b = Some y \<Longrightarrow> ?Pa ((w, s), b) y"
      and eq: "(if t s < timesteps_per_batch P' then
           (let (obs, w0) = env_reset P' w
            in Option.bind (episode_loop P' obs w0 (s\<lparr>ep_rews := [], ep_t := 0\<rparr>))
                 (\<lambda>r. case r of
                      Inl e \<Rightarrow> Some (Inl e)
                    | Inr (s1, w1) \<Rightarrow>
                        g P' w1 (s1\<lparr>batch_lens := batch_lens s1 @ [ep_t s1 + 1],
                                 batch_rews := batch_rews s1 @ [ep_rews s1]\<rparr>)))
         else Some (Inr (s, w))) = Some y"
    show "?Pa ((P', w), s) y"
    proof (simp, intro impI)
      assume p: "P' = P"
      show "R w s y"
      proof (rule step [of "g P"])
        show "R w s y" if "g P w s = Some y" for w s y
          using IH [OF that] by simp
        show "(if t s < timesteps_per_batch P then
           (let (obs, w0) = env_reset P w
            in Option.bind (episode_loop P obs w0 (s\<lparr>ep_rews := [], ep_t := 0\<rparr>))
                 (\<lambda>r. case r of
                      Inl e \<Rightarrow> Some (Inl e)
                    | Inr (s1, w1) \<Rightarrow>
                        g P w1 (s1\<lparr>batch_lens := batch_lens s1 @ [ep_t s1 + 1],
                                 batch_rews := batch_rews s1 @ [ep_rews s1]\<rparr>)))
         else Some (Inr (s, w))) = Some y"
          using eq unfolding p .
      qed
    qed
  qed
  then show ?thesis by simp
qed

lemma ep_inv_start:
  assumes "batch_inv P s" "t s < timesteps_per_batch P"
  shows "ep_inv P (s\<lparr>ep_rews := [], ep_t := 0\<rparr>)"
  using assms by (simp add: batch_inv_def ep_inv_def counts_ok_def aligned_def)

lemma batch_inv_close:
  assumes "ep_inv P s" "ep_rews s \<noteq> []"
  shows "batch_inv P (s\<lparr>batch_lens := batch_lens s @ [ep_t s + 1],
                         batch_rews := batch_rews s @ [ep_rews s]\<rparr>)"
  using assms by (simp add: batch_inv_def ep_inv_def counts_ok_def aligned_def)

lemma episode_loop_inv:
  assumes "episode_loop P obs w s = Some (Inr (s', w'))" "ep_inv P s"
  shows "ep_inv P s' \<and> ep_rews s' \<noteq> []"
proof -
  have "\<exists>obs0 w0 s0 obs1. ep_inv P s0 \<and> episode_body P obs0 w0 s0 = Inr (obs1, True, s', w')"
  proof (rule episode_loop_final [OF assms(1), where Q = "ep_inv P"])
    show "ep_inv P s" by fact
    show "ep_inv P s1"
      if "ep_inv P s0" "episode_body P obs0 w0 s0 = Inr (obs1, False, s1, w1)"
      for obs0 w0 s0 obs1 s1 w1
      using ep_inv_body [OF that] by simp
  qed
  then obtain obs0 w0 s0 obs1 where "ep_inv P s0"
    and "episode_body P obs0 w0 s0 = Inr (obs1, True, s', w')"
    by blast
  then show ?thesis by (rule ep_inv_body)
qed

lemma rollout_loop_inv:
  fixes P :: "('w, 'f) ppo"
  assumes run: "rollout_loop P w s = Some (Inr (s', w'))" and inv: "batch_inv P s"
  shows "batch_inv P s' \<and> timesteps_per_batch P \<le> t s'"
proof -
  define R where "R \<equiv> \<lambda>(w::'w) s (y :: error + 'f rollout_state \<times> 'w).
     batch_inv P s \<longrightarrow> (\<forall>s' w'. y = Inr (s', w') \<longrightarrow>
        batch_inv P s' \<and> timesteps_per_batch P \<le> t s')"
  have "R w s (Inr (s', w'))"
  proof (rule rollout_loop_induct [OF run])
    fix f w s y
    assume IH: "\<And>w s y. f w s = Some y \<Longrightarrow> R w s y"
      and eq: "(if t s < timesteps_per_batch P then
           (let (obs, w0) = env_reset P w
            in Option.bind (episode_loop P obs w0 (s\<lparr>ep_rews := [], ep_t := 0\<rparr>))
                 (\<lambda>r. case r of
                      Inl e \<Rightarrow> Some (Inl e)
                    | Inr (s1, w1) \<Rightarrow>
                        f w1 (s1\<lparr>batch_lens := batch_lens s1 @ [ep_t s1 + 1],
                                 batch_rews := batch_rews s1 @ [ep_rews s1]\<rparr>)))
         else Some (Inr (s, w))) = Some y"
    show "R w s y"
      unfolding R_def
    proof (intro impI allI)
      fix s' w'
      assume inv: "batch_inv P s" and y: "y = Inr (s', w')"
      show "batch_inv P s' \<and> timesteps_per_batch P \<le> t s'"
      proof (cases "t s < timesteps_per_batch P")
        case False
        with eq y inv show ?thesis by simp
      next
        case True
        obtain obs w0 where r: "env_reset P w = (obs, w0)" by (cases "env_reset P w")
        from eq True r obtain x where
          ep: "episode_loop P obs w0 (s\<lparr>ep_rews := [], ep_t := 0\<rparr>) = Some x"
          and rest: "(case x of Inl e \<Rightarrow> Some (Inl e)
                      | Inr (s1, w1) \<Rightarrow>
                        f w1 (s1\<lparr>batch_lens := batch_lens s1 @ [ep_t s1 + 1],
                                 batch_rews := batch_rews s1 @ [ep_rews s1]\<rparr>)) = Some y"
          by (auto simp: bind_eq_Some_conv)
        show ?thesis
        proof (cases x)
          case (Inl e)
          with rest y show ?thesis by simp
        next
          case (Inr p)
          obtain s1 w1 where p: "p = (s1, w1)" by (cases p)
          from ep Inr p ep_inv_start [OF inv True]
          have "ep_inv P s1 \<and> ep_rews s1 \<noteq> []" by (intro episode_loop_inv) simp_all
          then have "batch_inv P (s1\<lparr>batch_lens := batch_lens s1 @ [ep_t s1 + 1],
                                 batch_rews := batch_rews s1 @ [ep_rews s1]\<rparr>)"
            by (intro batch_inv_close) simp_all
          moreover from rest Inr p
          have "f w1 (s1\<lparr>batch_lens := batch_lens s1 @ [ep_t s1 + 1],
                                 batch_rews := batch_rews s1 @ [ep_rews s1]\<rparr>) = Some y"
            by simp
          ultimately show ?thesis using IH y unfolding R_def by blast
        qed
      qed
    qed
  qed
  with inv show ?thesis unfolding R_def by blast
qed

lemma batch_inv_init: "batch_inv P rollout_init"
  by (simp add: batch_inv_def counts_ok_def aligned_def rollout_init_def)


lemma episode_loop_frame:
  assumes "episode_loop P obs w s = Some (Inr (s', w'))"
  shows "batch_rews s' = batch_rews s \<and> batch_lens s' = batch_lens s"
proof -
  let ?Q = "\<lambda>x. batch_rews x = batch_rews s \<and> batch_lens x = batch_lens s"
  have "\<exists>obs0 w0 s0 obs1. ?Q s0 \<and> episode_body P obs0 w0 s0 = Inr (obs1, True, s', w')"
  proof (rule episode_loop_final [OF assms, where Q = ?Q])
    show "?Q s" by simp
    show "?Q s1"
      if "?Q s0" "episode_body P obs0 w0 s0 = Inr (obs1, False, s1, w1)"
      for obs0 w0 s0 obs1 s1 w1
      using that episode_body_Inr [OF that(2)] by auto
  qed
  then obtain obs0 w0 s0 obs1 where q: "?Q s0"
    and b: "episode_body P obs0 w0 s0 = Inr (obs1, True, s', w')"
    by blast
  from episode_body_Inr [OF b] q show ?thesis by auto
qed

text \<open>An episode ends only on a step for which the environment answered \<open>done\<close>.\<close>

lemma episode_ends_on_done:
  assumes "episode_loop P obs w s = Some (Inr (s', w'))"
  shows "\<exists>obs0 w0 s0 obs1. episode_body P obs0 w0 s0 = Inr (obs1, True, s', w')"
  using episode_loop_final [OF assms, where Q = "\<lambda>x. True"] by blast

lemma rollout_loop_returns:
  assumes et: "episodes_terminate P"
  shows "batch_inv P s \<Longrightarrow> \<exists>s' w'. rollout_loop P w s = Some (Inr (s', w'))"
proof (induction "nat (timesteps_per_batch P - t s)" arbitrary: s w rule: less_induct)
  case less
  show ?case
  proof (cases "t s < timesteps_per_batch P")
    case False
    then show ?thesis by (subst rollout_loop.simps) simp
  next
    case True
    obtain obs w0 where r: "env_reset P w = (obs, w0)" by (cases "env_reset P w")
    let ?s0 = "s\<lparr>ep_rews := [], ep_t := 0\<rparr>"
    from et obtain s1 w1 where ep: "episode_loop P obs w0 ?s0 = Some (Inr (s1, w1))"
      unfolding episodes_terminate_def by (metis surj_pair)
    let ?s2 = "s1\<lparr>batch_lens := batch_lens s1 @ [ep_t s1 + 1],
                  batch_rews := batch_rews s1 @ [ep_rews s1]\<rparr>"
    have inv0: "ep_inv P ?s0" using less.prems True by (rule ep_inv_start)
    from episode_loop_inv [OF ep inv0] have inv1: "ep_inv P s1" and ne: "ep_rews s1 \<noteq> []"
      by simp_all
    from episode_loop_frame [OF ep] have fr: "batch_rews s1 = batch_rews s" by simp
    have inv2: "batch_inv P ?s2" using inv1 ne by (rule batch_inv_close)
    have "t s < t s1"
      using inv1 ne less.prems fr
      by (cases "ep_rews s1") (auto simp: ep_inv_def batch_inv_def counts_ok_def)
    then have "nat (timesteps_per_batch P - t ?s2) < nat (timesteps_per_batch P - t s)"
      using True by simp
    from less.hyps [OF this inv2] obtain s' w' where
      "rollout_loop P w1 ?s2 = Some (Inr (s', w'))" by blast
    then have "rollout_loop P w s = Some (Inr (s', w'))"
      using True r ep by (subst rollout_loop.simps) simp
    then show ?thesis by blast
  qed
qed

lemma rollout_Inr:
  "rollout P w = Some (Inr (b, w')) \<longleftrightarrow>
     (\<exists>s. rollout_loop P w rollout_init = Some (Inr (s, w')) \<and> b = batch_of P s)"
  by (cases "rollout_loop P w rollout_init")
     (auto simp: rollout_def map_sum_def split: sum.splits)

subsection \<open>The stub environment\<close>

lemma stub_simps:
  "timesteps_per_batch (stub_ppo T n) = n"
  "gamma (stub_ppo T n) = py_float (95 / 100)"
  "n_updates_per_iteration (stub_ppo T n) = 5"
  "arith (stub_ppo T n) = ieee_arith"
  "torch (stub_ppo T n) = T"
  "env_reset (stub_ppo T n) w = ([Fin 0], w)"
  "env_step (stub_ppo T n) k w = (([Fin 0], Fin 1, True), Suc w)"
  "critic (stub_ppo T n) w ob = Fin 0"
  "actor_optim_step (stub_ppo T n) obs acts lps a l w = w"
  "critic_optim_step (stub_ppo T n) obs rtgs cl w = w"
  by (simp_all add: stub_ppo_def)

lemma ieee_arith_simps:
  "py_int ieee_arith k = Fin (of_int k)"
  "py_add ieee_arith = ieee_add"
  "py_sub ieee_arith = ieee_sub"
  "py_mul ieee_arith = ieee_mul"
  "to_float32 ieee_arith = ieee_to_float32"
  by (simp_all add: ieee_arith_def)

lemma stub_episode_body:
  "episode_body (stub_ppo T n) obs w s =
     Inr ([Fin 0], True,
          s\<lparr>ep_t := ep_t s + 1, t := t s + 1, batch_obs := batch_obs s @ [obs],
            ep_rews := ep_rews s @ [Fin 1],
            batch_acts := batch_acts s @ [[Fin 0, Fin 0, Fin 0, Fin 0]],
            batch_log_probs := batch_log_probs s @ [Fin 0]\<rparr>,
          Suc w)"
  by (simp add: episode_body_def get_action_def stub_ppo_def)

lemma stub_episode_loop:
  "episode_loop (stub_ppo T n) obs w s =
     Some (Inr (s\<lparr>ep_t := ep_t s + 1, t := t s + 1, batch_obs := batch_obs s @ [obs],
                  ep_rews := ep_rews s @ [Fin 1],
                  batch_acts := batch_acts s @ [[Fin 0, Fin 0, Fin 0, Fin 0]],
                  batch_log_probs := batch_log_probs s @ [Fin 0]\<rparr>,
                Suc w))"
  by (subst episode_loop.simps) (simp add: stub_episode_body)

lemma stub_episodes_terminate: "episodes_terminate (stub_ppo T n)"
  unfolding episodes_terminate_def by (simp add: stub_episode_loop)

lemma binary32_0: "binary32 0 = Fin 0"
  by (simp add: binary32_def round_binary_def)

lemma stub_rollout_loop_1:
  "rollout_loop (stub_ppo T 1) 0 rollout_init =
     Some (Inr (\<lparr>batch_obs = [[Fin 0]], batch_acts = [[Fin 0, Fin 0, Fin 0, Fin 0]],
                  batch_log_probs = [Fin 0], batch_rews = [[Fin 1]], batch_lens = [2],
                  t = 1, ep_rews = [Fin 1], ep_t = 1\<rparr>, 1))"
  apply (subst rollout_loop.simps)
  apply (simp add: rollout_init_def stub_episode_loop stub_simps)
  apply (subst rollout_loop.simps)
  apply (simp add: stub_simps)
  done

lemma stub_rollout_loop_2:
  "rollout_loop (stub_ppo T 2) 0 rollout_init =
     Some (Inr (\<lparr>batch_obs = [[Fin 0], [Fin 0]],
                  batch_acts = [[Fin 0, Fin 0, Fin 0, Fin 0], [Fin 0, Fin 0, Fin 0, Fin 0]],
                  batch_log_probs = [Fin 0, Fin 0], batch_rews = [[Fin 1], [Fin 1]],
                  batch_lens = [2, 2], t = 2, ep_rews = [Fin 1], ep_t = 1\<rparr>, 2))"
  apply (subst rollout_loop.simps)
  apply (simp add: rollout_init_def stub_episode_loop stub_simps)
  apply (subst rollout_loop.simps)
  apply (simp add: stub_episode_loop stub_simps)
  apply (subst rollout_loop.simps)
  apply (simp add: stub_simps)
  done

lemma rtgs_one: "compute_rtgs ieee_arith (py_float (95 / 100)) [[Fin 1]] = [Fin 1]"
  by (simp add: compute_rtgs_def rtgs_list_def rtg_step_def Let_def ieee_arith_def py_float_095
      binary64_0 binary64_1 binary32_1)

lemma rtgs_one_one:
  "compute_rtgs ieee_arith (py_float (95 / 100)) [[Fin 1], [Fin 1]] = [Fin 1, Fin 1]"
  by (simp add: compute_rtgs_def rtgs_list_def rtg_step_def Let_def ieee_arith_def py_float_095
      binary64_0 binary64_1 binary32_1)

lemma stub_rollout_1:
  "rollout (stub_ppo T 1) 0 =
     Some (Inr (([[Fin 0]], [[Fin 0, Fin 0, Fin 0, Fin 0]], [Fin 0], [Fin 1], [2]), 1))"
  using rtgs_one
  by (simp add: rollout_def stub_rollout_loop_1 batch_of_def stub_simps ieee_arith_simps
      binary32_0)

lemma stub_rollout_2:
  "rollout (stub_ppo T 2) 0 =
     Some (Inr (([[Fin 0], [Fin 0]], [[Fin 0, Fin 0, Fin 0, Fin 0], [Fin 0, Fin 0, Fin 0, Fin 0]],
                 [Fin 0, Fin 0], [Fin 1, Fin 1], [2, 2]), 2))"
  using rtgs_one_one
  by (simp add: rollout_def stub_rollout_loop_2 batch_of_def stub_simps ieee_arith_simps
      binary32_0)

lemma rollout_final:
  assumes "rollout P w = Some (Inr ((obs, acts, lps, rtgs, lens), w'))"
  obtains s where "rollout_loop P w rollout_init = Some (Inr (s, w'))"
    and "batch_inv P s" and "timesteps_per_batch P \<le> t s"
    and "obs = map (map (to_float32 (arith P))) (batch_obs s)"
    and "acts = map (map (to_float32 (arith P))) (batch_acts s)"
    and "lps = map (to_float32 (arith P)) (batch_log_probs s)"
    and "rtgs = compute_rtgs (arith P) (gamma P) (batch_rews s)"
    and "lens = batch_lens s"
proof -
  from assms obtain s where run: "rollout_loop P w rollout_init = Some (Inr (s, w'))"
    and b: "(obs, acts, lps, rtgs, lens) = batch_of P s"
    unfolding rollout_Inr by blast
  from rollout_loop_inv [OF run batch_inv_init] b that [OF run] show thesis
    by (simp add: batch_of_def)
qed

lemma sum_list_lens:
  "sum_list (map (\<lambda>rs. int (length rs) + 1) xs) = int (length (concat xs)) + int (length xs)"
  by (induction xs) simp_all

text \<open>
  For every batch \<open>rollout\<close> returns, the sum of \<open>batch_lens\<close> is the number of
  timesteps plus the number of episodes.
\<close>

lemma rollout_lens_sum:
  assumes "rollout P w = Some (Inr ((obs, acts, lps, rtgs, lens), w'))"
  shows "sum_list lens = int (length obs) + int (length lens)"
proof -
  from assms obtain s where inv: "batch_inv P s"
    and o: "obs = map (map (to_float32 (arith P))) (batch_obs s)" and l: "lens = batch_lens s"
    by (rule rollout_final)
  from inv have "batch_lens s = map (\<lambda>rs. int (length rs) + 1) (batch_rews s)"
    and "length (concat (batch_rews s)) = length (batch_obs s)"
    by (simp_all add: batch_inv_def counts_ok_def)
  then show ?thesis
    unfolding o l by (simp add: sum_list_lens)
qed

text \<open>
  C4. When every episode ends, \<open>rollout\<close> returns a batch. Its number of timesteps
  (the length of the observations) is at least \<open>timesteps_per_batch\<close>; every timestep
  belongs to a recorded episode; when an episode was run, the overshoot beyond the
  target is less than the length of the last episode (with no episode the batch is
  empty and the target is not positive); and an episode ends only on a step for
  which the environment answered \<open>done\<close>.
\<close>

theorem rollout_reaches_target:
  assumes "episodes_terminate P"
  shows "\<exists>s obs acts lps rtgs lens w'.
           rollout_loop P w rollout_init = Some (Inr (s, w')) \<and>
           rollout P w = Some (Inr ((obs, acts, lps, rtgs, lens), w')) \<and>
           timesteps_per_batch P \<le> int (length obs) \<and>
           length obs = length (concat (batch_rews s)) \<and>
           (batch_rews s = [] \<longrightarrow> obs = [] \<and> timesteps_per_batch P \<le> 0) \<and>
           (batch_rews s \<noteq> [] \<longrightarrow>
              int (length obs) - timesteps_per_batch P < int (length (last (batch_rews s)))) \<and>
           (\<forall>ob w0 s0 s1 w1.
              episode_loop P ob w0 s0 = Some (Inr (s1, w1)) \<longrightarrow>
              (\<exists>ob' w0' s0' ob1. episode_body P ob' w0' s0' = Inr (ob1, True, s1, w1)))"
proof -
  from rollout_loop_returns [OF assms batch_inv_init] obtain s w' where
    run: "rollout_loop P w rollout_init = Some (Inr (s, w'))" by blast
  from rollout_loop_inv [OF run batch_inv_init]
  have inv: "batch_inv P s" and ge: "timesteps_per_batch P \<le> t s" by simp_all
  let ?obs = "map (map (to_float32 (arith P))) (batch_obs s)"
  from inv have tl: "t s = int (length (batch_obs s))"
    and cl: "length (concat (batch_rews s)) = length (batch_obs s)"
    and lt: "batch_rews s \<noteq> [] \<Longrightarrow>
               int (length (concat (butlast (batch_rews s)))) < timesteps_per_batch P"
    by (simp_all add: batch_inv_def counts_ok_def)
  have r: "rollout P w = Some (Inr ((?obs, map (map (to_float32 (arith P))) (batch_acts s),
              map (to_float32 (arith P)) (batch_log_probs s),
              compute_rtgs (arith P) (gamma P) (batch_rews s), batch_lens s), w'))"
    using run by (simp add: rollout_Inr batch_of_def)
  have a: "timesteps_per_batch P \<le> int (length ?obs)" using ge tl by simp
  have b: "length ?obs = length (concat (batch_rews s))" using cl by simp
  have c: "?obs = [] \<and> timesteps_per_batch P \<le> 0" if "batch_rews s = []"
    using that cl ge tl by simp
  have d: "int (length ?obs) - timesteps_per_batch P < int (length (last (batch_rews s)))"
    if ne: "batch_rews s \<noteq> []"
  proof -
    from ne have "concat (batch_rews s) = concat (butlast (batch_rews s)) @ last (batch_rews s)"
      by (metis append_butlast_last_id concat_append concat.simps(2) concat.simps(1)
          append_Nil2)
    then have "length (batch_obs s) =
                 length (concat (butlast (batch_rews s))) + length (last (batch_rews s))"
      using cl by (metis length_append)
    with lt [OF ne] show ?thesis by simp
  qed
  have e: "\<forall>ob w0 s0 s1 w1.
              episode_loop P ob w0 s0 = Some (Inr (s1, w1)) \<longrightarrow>
              (\<exists>ob' w0' s0' ob1. episode_body P ob' w0' s0' = Inr (ob1, True, s1, w1))"
    by (intro allI impI) (rule episode_ends_on_done)
  from run r a b c d e show ?thesis by blast
qed

theorem rollout_reaches_target_witness:
  "\<forall>T. episodes_terminate (stub_ppo T 2) \<and>
     rollout (stub_ppo T 2) 0 =
       Some (Inr (([[Fin 0], [Fin 0]],
                   [[Fin 0, Fin 0, Fin 0, Fin 0], [Fin 0, Fin 0, Fin 0, Fin 0]],
                   [Fin 0, Fin 0], [Fin 1, Fin 1], [2, 2]), 2)) \<and>
     (\<exists>s obs acts lps rtgs lens w'.
           rollout_loop (stub_ppo T 2) 0 rollout_init = Some (Inr (s, w')) \<and>
           rollout (stub_ppo T 2) 0 = Some (Inr ((obs, acts, lps, rtgs, lens), w')) \<and>
           2 \<le> int (length obs) \<and> batch_rews s \<noteq> [] \<and>
           int (length obs) - 2 < int (length (last (batch_rews s))))"
proof (intro allI conjI)
  fix T
  show et: "episodes_terminate (stub_ppo T 2)" by (rule stub_episodes_terminate)
  show "rollout (stub_ppo T 2) 0 =
       Some (Inr (([[Fin 0], [Fin 0]],
                   [[Fin 0, Fin 0, Fin 0, Fin 0], [Fin 0, Fin 0, Fin 0, Fin 0]],
                   [Fin 0, Fin 0], [Fin 1, Fin 1], [2, 2]), 2))"
    by (rule stub_rollout_2)
  from rollout_reaches_target [OF et, of 0] obtain s obs acts lps rtgs lens w' where
    h: "rollout_loop (stub_ppo T 2) 0 rollout_init = Some (Inr (s, w'))"
      "rollout (stub_ppo T 2) 0 = Some (Inr ((obs, acts, lps, rtgs, lens), w'))"
      "timesteps_per_batch (stub_ppo T 2) \<le> int (length obs)"
      "batch_rews s \<noteq> [] \<longrightarrow>
         int (length obs) - timesteps_per_batch (stub_ppo T 2) < int (length (last (batch_rews s)))"
    by blast
  from h(1) have "batch_rews s \<noteq> []" by (auto simp: stub_rollout_loop_2)
  with h show "\<exists>s obs acts lps rtgs lens w'.
           rollout_loop (stub_ppo T 2) 0 rollout_init = Some (Inr (s, w')) \<and>
           rollout (stub_ppo T 2) 0 = Some (Inr ((obs, acts, lps, rtgs, lens), w')) \<and>
           2 \<le> int (length obs) \<and> batch_rews s \<noteq> [] \<and>
           int (length obs) - 2 < int (length (last (batch_rews s)))"
    unfolding stub_simps by blast
qed

text \<open>
  C5 fails on the code. With the stub environment and \<open>timesteps_per_batch = 1\<close> the
  batch has one timestep, but \<open>batch_lens\<close> is \<open>[2]\<close> and its sum is 2.
\<close>

theorem rollout_lens_sum_stub:
  "map_option (map_sum id (\<lambda>((obs, acts, lps, rtgs, lens), w'). (length obs, lens, sum_list lens)))
     (rollout (stub_ppo T 1) 0) = Some (Inr (1, [2], 2))"
  by (simp add: stub_rollout_1)

text \<open>
  C6. In every batch \<open>rollout\<close> returns, the observations, the actions and the
  log-probabilities have the same length, and for every index there is one call of
  \<open>get_action\<close>, on an observation \<open>ob\<close> in a world \<open>w0\<close>, such that the three entries at
  that index are the conversions to \<open>torch.float\<close> of \<open>ob\<close>, of the action sampled in
  that call and of the log-probability of that same action.
\<close>

theorem rollout_index_aligned:
  assumes "rollout P w = Some (Inr ((obs, acts, lps, rtgs, lens), w'))"
  shows "length acts = length obs \<and> length lps = length obs \<and>
         (\<forall>i<length obs. \<exists>ob w0 action log_prob w1.
            get_action P ob w0 = ((action, log_prob), w1) \<and>
            action = fst (mvn_sample P (actor P w0 ob) w0) \<and>
            log_prob = mvn_log_prob P (actor P w0 ob) action \<and>
            obs ! i = map (to_float32 (arith P)) ob \<and>
            acts ! i = map (to_float32 (arith P)) action \<and>
            lps ! i = to_float32 (arith P) log_prob)"
proof -
  from assms obtain s where inv: "batch_inv P s"
    and o: "obs = map (map (to_float32 (arith P))) (batch_obs s)"
    and a: "acts = map (map (to_float32 (arith P))) (batch_acts s)"
    and l: "lps = map (to_float32 (arith P)) (batch_log_probs s)"
    by (rule rollout_final)
  from inv have la: "length (batch_acts s) = length (batch_obs s)"
    and ll: "length (batch_log_probs s) = length (batch_obs s)"
    and al: "\<And>i. i < length (batch_obs s) \<Longrightarrow>
        \<exists>w0. fst (get_action P (batch_obs s ! i) w0) = (batch_acts s ! i, batch_log_probs s ! i)"
    by (auto simp: batch_inv_def aligned_def)
  have "\<exists>ob w0 action log_prob w1.
            get_action P ob w0 = ((action, log_prob), w1) \<and>
            action = fst (mvn_sample P (actor P w0 ob) w0) \<and>
            log_prob = mvn_log_prob P (actor P w0 ob) action \<and>
            obs ! i = map (to_float32 (arith P)) ob \<and>
            acts ! i = map (to_float32 (arith P)) action \<and>
            lps ! i = to_float32 (arith P) log_prob"
    if i: "i < length obs" for i
  proof -
    from i o have i': "i < length (batch_obs s)" by simp
    from al [OF i'] obtain w0 where
      g: "fst (get_action P (batch_obs s ! i) w0) = (batch_acts s ! i, batch_log_probs s ! i)"
      by blast
    then have g': "get_action P (batch_obs s ! i) w0 =
        ((batch_acts s ! i, batch_log_probs s ! i), snd (get_action P (batch_obs s ! i) w0))"
      by (metis prod.collapse)
    from g have "batch_acts s ! i = fst (mvn_sample P (actor P w0 (batch_obs s ! i)) w0)"
      and "batch_log_probs s ! i = mvn_log_prob P (actor P w0 (batch_obs s ! i)) (batch_acts s ! i)"
      by (auto simp: get_action_def Let_def split: prod.splits)
    with g' i' la ll show ?thesis unfolding o a l by (metis nth_map)
  qed
  with la ll show ?thesis unfolding o a l by simp
qed

theorem rollout_index_aligned_witness:
  "\<forall>T. rollout (stub_ppo T 2) 0 =
       Some (Inr (([[Fin 0], [Fin 0]],
                   [[Fin 0, Fin 0, Fin 0, Fin 0], [Fin 0, Fin 0, Fin 0, Fin 0]],
                   [Fin 0, Fin 0], [Fin 1, Fin 1], [2, 2]), 2)) \<and>
     (length [[Fin 0, Fin 0, Fin 0, Fin 0], [Fin 0, Fin 0, Fin 0, Fin 0]]
        = length [[Fin 0], [Fin 0]] \<and>
      length [Fin 0, Fin 0] = length [[Fin 0], [Fin 0]] \<and>
      (\<exists>ob w0 action log_prob w1.
         get_action (stub_ppo T 2) ob w0 = ((action, log_prob), w1) \<and>
         action = fst (mvn_sample (stub_ppo T 2) (actor (stub_ppo T 2) w0 ob) w0) \<and>
         log_prob = mvn_log_prob (stub_ppo T 2) (actor (stub_ppo T 2) w0 ob) action \<and>
         [[Fin 0], [Fin 0]] ! 0 = map (to_float32 (arith (stub_ppo T 2))) ob \<and>
         [[Fin 0, Fin 0, Fin 0, Fin 0], [Fin 0, Fin 0, Fin 0, Fin 0]] ! 0
           = map (to_float32 (arith (stub_ppo T 2))) action \<and>
         [Fin 0, Fin 0] ! 0 = to_float32 (arith (stub_ppo T 2)) log_prob) \<and>
      (\<exists>ob w0 action log_prob w1.
         get_action (stub_ppo T 2) ob w0 = ((action, log_prob), w1) \<and>
         action = fst (mvn_sample (stub_ppo T 2) (actor (stub_ppo T 2) w0 ob) w0) \<and>
         log_prob = mvn_log_prob (stub_ppo T 2) (actor (stub_ppo T 2) w0 ob) action \<and>
         [[Fin 0], [Fin 0]] ! 1 = map (to_float32 (arith (stub_ppo T 2))) ob \<and>
         [[Fin 0, Fin 0, Fin 0, Fin 0], [Fin 0, Fin 0, Fin 0, Fin 0]] ! 1
           = map (to_float32 (arith (stub_ppo T 2))) action \<and>
         [Fin 0, Fin 0] ! 1 = to_float32 (arith (stub_ppo T 2)) log_prob))"
proof (rule allI, intro conjI)
  fix T
  show r: "rollout (stub_ppo T 2) 0 =
       Some (Inr (([[Fin 0], [Fin 0]],
                   [[Fin 0, Fin 0, Fin 0, Fin 0], [Fin 0, Fin 0, Fin 0, Fin 0]],
                   [Fin 0, Fin 0], [Fin 1, Fin 1], [2, 2]), 2))"
    by (rule stub_rollout_2)
  note a = rollout_index_aligned [OF r]
  from a show "length [[Fin 0, Fin 0, Fin 0, Fin 0], [Fin 0, Fin 0, Fin 0, Fin 0 :: ieee]]
        = length [[Fin 0], [Fin 0 :: ieee]]"
    by (rule conjunct1)
  from a show "length [Fin 0, Fin 0 :: ieee] = length [[Fin 0], [Fin 0 :: ieee]]"
    by (rule conjunct1 [OF conjunct2])
  note b = a [THEN conjunct2, THEN conjunct2, rule_format]
  have i0: "0 < length [[Fin 0], [Fin 0 :: ieee]]" and i1: "1 < length [[Fin 0], [Fin 0 :: ieee]]"
    by simp_all
  show "\<exists>ob w0 action log_prob w1.
         get_action (stub_ppo T 2) ob w0 = ((action, log_prob), w1) \<and>
         action = fst (mvn_sample (stub_ppo T 2) (actor (stub_ppo T 2) w0 ob) w0) \<and>
         log_prob = mvn_log_prob (stub_ppo T 2) (actor (stub_ppo T 2) w0 ob) action \<and>
         [[Fin 0], [Fin 0]] ! 0 = map (to_float32 (arith (stub_ppo T 2))) ob \<and>
         [[Fin 0, Fin 0, Fin 0, Fin 0], [Fin 0, Fin 0, Fin 0, Fin 0]] ! 0
           = map (to_float32 (arith (stub_ppo T 2))) action \<and>
         [Fin 0, Fin 0] ! 0 = to_float32 (arith (stub_ppo T 2)) log_prob"
    by (rule b [OF i0])
  show "\<exists>ob w0 action log_prob w1.
         get_action (stub_ppo T 2) ob w0 = ((action, log_prob), w1) \<and>
         action = fst (mvn_sample (stub_ppo T 2) (actor (stub_ppo T 2) w0 ob) w0) \<and>
         log_prob = mvn_log_prob (stub_ppo T 2) (actor (stub_ppo T 2) w0 ob) action \<and>
         [[Fin 0], [Fin 0]] ! 1 = map (to_float32 (arith (stub_ppo T 2))) ob \<and>
         [[Fin 0, Fin 0, Fin 0, Fin 0], [Fin 0, Fin 0, Fin 0, Fin 0]] ! 1
           = map (to_float32 (arith (stub_ppo T 2))) action \<and>
         [Fin 0, Fin 0] ! 1 = to_float32 (arith (stub_ppo T 2)) log_prob"
    by (rule b [OF i1])
qed

section \<open>Properties of \<open>learn\<close>\<close>




lemma update_epoch_frame:
  "L_batch_rtgs (update_epoch P L) = L_batch_rtgs L"
  "t_so_far (update_epoch P L) = t_so_far L"
  by (simp_all add: update_epoch_def Let_def split: prod.splits)

lemma update_epoch_critic_loss:
  "critic_loss (update_epoch P L) =
     Some (mse_loss (torch P) (V (update_epoch P L)) (L_batch_rtgs L))"
  by (simp add: update_epoch_def Let_def split: prod.splits)

lemma update_epochs_frame:
  "L_batch_rtgs ((update_epoch P ^^ k) L) = L_batch_rtgs L"
  "t_so_far ((update_epoch P ^^ k) L) = t_so_far L"
  by (induction k) (simp_all add: update_epoch_frame)

lemma collect_Inr:
  assumes "rollout P (world L) = Some (Inr ((obs, acts, lps, rtgs, lens), w1))"
  shows "collect P L =
           Some (Inr (L\<lparr>world := w1, L_batch_obs := obs, L_batch_acts := acts,
                        L_batch_log_probs := lps, L_batch_rtgs := rtgs, L_batch_lens := lens,
                        t_so_far := t_so_far L + sum_list lens,
                        V := fst (evaluate P w1 obs acts),
                        A_k := advantage (torch P) rtgs (fst (evaluate P w1 obs acts))\<rparr>))"
  using assms by (simp add: collect_def Let_def)

text \<open>
  C7. In a cycle of \<open>learn\<close> whose rollout returns, the rewards-to-go are the value
  \<open>compute_rtgs\<close> gave at the end of the rollout; the variable \<open>batch_rtgs\<close> holds that
  value after every number of inner epochs, and the critic's loss of every inner epoch
  is the loss between the value estimates of that epoch and that same value.
\<close>

theorem rtgs_fixed_in_update_loop:
  assumes "rollout P (world L) = Some (Inr ((obs, acts, lps, rtgs, lens), w1))"
  shows "\<exists>s L0.
           rollout_loop P (world L) rollout_init = Some (Inr (s, w1)) \<and>
           rtgs = compute_rtgs (arith P) (gamma P) (batch_rews s) \<and>
           collect P L = Some (Inr L0) \<and> L_batch_rtgs L0 = rtgs \<and>
           learn_cycle P L =
             Some (Inr ((update_epoch P ^^ nat (n_updates_per_iteration P)) L0)) \<and>
           (\<forall>k. L_batch_rtgs ((update_epoch P ^^ k) L0) = rtgs \<and>
                critic_loss ((update_epoch P ^^ Suc k) L0) =
                  Some (mse_loss (torch P) (V ((update_epoch P ^^ Suc k) L0)) rtgs))"
proof -
  from assms obtain s where run: "rollout_loop P (world L) rollout_init = Some (Inr (s, w1))"
    and r: "rtgs = compute_rtgs (arith P) (gamma P) (batch_rews s)"
    by (rule rollout_final)
  let ?L0 = "L\<lparr>world := w1, L_batch_obs := obs, L_batch_acts := acts,
                L_batch_log_probs := lps, L_batch_rtgs := rtgs, L_batch_lens := lens,
                t_so_far := t_so_far L + sum_list lens,
                V := fst (evaluate P w1 obs acts),
                A_k := advantage (torch P) rtgs (fst (evaluate P w1 obs acts))\<rparr>"
  have c: "collect P L = Some (Inr ?L0)" using assms by (rule collect_Inr)
  have l0: "L_batch_rtgs ?L0 = rtgs" by simp
  have cyc: "learn_cycle P L =
               Some (Inr ((update_epoch P ^^ nat (n_updates_per_iteration P)) ?L0))"
    by (simp add: learn_cycle_def c)
  have fr: "L_batch_rtgs ((update_epoch P ^^ k) ?L0) = rtgs" for k
    by (simp add: update_epochs_frame)
  have cl: "critic_loss ((update_epoch P ^^ Suc k) ?L0) =
              Some (mse_loss (torch P) (V ((update_epoch P ^^ Suc k) ?L0)) rtgs)" for k
  proof -
    have "critic_loss (update_epoch P ((update_epoch P ^^ k) ?L0)) =
            Some (mse_loss (torch P) (V (update_epoch P ((update_epoch P ^^ k) ?L0)))
                    (L_batch_rtgs ((update_epoch P ^^ k) ?L0)))"
      by (rule update_epoch_critic_loss)
    then show ?thesis unfolding fr by simp
  qed
  from run r c l0 cyc fr cl show ?thesis by blast
qed

theorem rtgs_fixed_in_update_loop_witness:
  "\<forall>T. rollout (stub_ppo T 2) (world (learn_init 0 :: (nat, ieee) learn_state)) =
         Some (Inr (([[Fin 0], [Fin 0]],
                     [[Fin 0, Fin 0, Fin 0, Fin 0], [Fin 0, Fin 0, Fin 0, Fin 0]],
                     [Fin 0, Fin 0], [Fin 1, Fin 1], [2, 2]), 2)) \<and>
       (\<exists>L0. collect (stub_ppo T 2) (learn_init 0) = Some (Inr L0) \<and>
          L_batch_rtgs L0 = [Fin 1, Fin 1] \<and>
          learn_cycle (stub_ppo T 2) (learn_init 0) =
            Some (Inr ((update_epoch (stub_ppo T 2) ^^ 5) L0)) \<and>
          L_batch_rtgs ((update_epoch (stub_ppo T 2) ^^ 5) L0) = [Fin 1, Fin 1] \<and>
          critic_loss ((update_epoch (stub_ppo T 2) ^^ 5) L0) =
            Some (mse_loss T (V ((update_epoch (stub_ppo T 2) ^^ 5) L0)) [Fin 1, Fin 1]))"
proof (rule allI, rule conjI)
  fix T
  show r: "rollout (stub_ppo T 2) (world (learn_init 0 :: (nat, ieee) learn_state)) =
         Some (Inr (([[Fin 0], [Fin 0]],
                     [[Fin 0, Fin 0, Fin 0, Fin 0], [Fin 0, Fin 0, Fin 0, Fin 0]],
                     [Fin 0, Fin 0], [Fin 1, Fin 1], [2, 2]), 2))"
    by (simp add: learn_init_def stub_rollout_2)
  from rtgs_fixed_in_update_loop [OF r] obtain L0 where
    c: "collect (stub_ppo T 2) (learn_init 0) = Some (Inr L0)"
    and l0: "L_batch_rtgs L0 = [Fin 1, Fin 1]"
    and cyc: "learn_cycle (stub_ppo T 2) (learn_init 0) =
             Some (Inr ((update_epoch (stub_ppo T 2) ^^ nat (n_updates_per_iteration (stub_ppo T 2))) L0))"
    and all: "\<And>k. L_batch_rtgs ((update_epoch (stub_ppo T 2) ^^ k) L0) = [Fin 1, Fin 1] \<and>
                critic_loss ((update_epoch (stub_ppo T 2) ^^ Suc k) L0) =
                  Some (mse_loss (torch (stub_ppo T 2))
                     (V ((update_epoch (stub_ppo T 2) ^^ Suc k) L0)) [Fin 1, Fin 1])"
    by blast
  have five: "nat (n_updates_per_iteration (stub_ppo T 2)) = Suc 4" by (simp add: stub_simps)
  from all [of 4] all [of 5] cyc c l0
  show "\<exists>L0. collect (stub_ppo T 2) (learn_init 0) = Some (Inr L0) \<and>
          L_batch_rtgs L0 = [Fin 1, Fin 1] \<and>
          learn_cycle (stub_ppo T 2) (learn_init 0) =
            Some (Inr ((update_epoch (stub_ppo T 2) ^^ 5) L0)) \<and>
          L_batch_rtgs ((update_epoch (stub_ppo T 2) ^^ 5) L0) = [Fin 1, Fin 1] \<and>
          critic_loss ((update_epoch (stub_ppo T 2) ^^ 5) L0) =
            Some (mse_loss T (V ((update_epoch (stub_ppo T 2) ^^ 5) L0)) [Fin 1, Fin 1])"
    unfolding five stub_simps
    by (intro exI [of _ L0]) (simp add: eval_nat_numeral)
qed

lemma one_step_episodes_terminate:
  assumes "one_step_env P" "argmax_defined P"
  shows "episodes_terminate P"
  unfolding episodes_terminate_def
proof (intro allI)
  fix obs w s
  obtain action log_prob w1 where g: "get_action P obs w = ((action, log_prob), w1)"
    by (metis surj_pair)
  then have "action = fst (mvn_sample P (actor P w obs) w)"
    by (auto simp: get_action_def Let_def split: prod.splits)
  with assms(2) obtain move where m: "argmax P action = Some move"
    unfolding argmax_defined_def by (metis not_Some_eq)
  from assms(1) obtain ob rew w' where
    e: "env_step P (direction_of move) w1 = ((ob, rew, True), w')"
    unfolding one_step_env_def by blast
  have "\<exists>s'. episode_body P obs w s = Inr (ob, True, s', w')"
    using g m e by (simp add: episode_body_def Let_def)
  then obtain s' where "episode_body P obs w s = Inr (ob, True, s', w')" by blast
  then have "episode_loop P obs w s = Some (Inr (s', w'))"
    by (subst episode_loop.simps) simp
  then show "\<exists>r. episode_loop P obs w s = Some (Inr r)" by blast
qed

text \<open>
  C8. With an environment that ends every episode after one step and a positive
  \<open>timesteps_per_batch\<close>, \<open>learn\<close> with a budget of \<open>timesteps_per_batch\<close> returns: the
  loop is entered (the counter starts at 0), one cycle (one rollout followed by the
  inner epochs) succeeds, after it the counter has reached the budget, and the
  result of \<open>learn\<close> is the state after that one cycle.
\<close>

theorem learn_one_cycle:
  fixes P :: "('w, 'f) ppo"
  assumes "one_step_env P" "argmax_defined P" "0 < timesteps_per_batch P"
  shows "\<exists>L0 L1.
           t_so_far (learn_init w :: ('w, 'f) learn_state) < timesteps_per_batch P \<and>
           collect P (learn_init w) = Some (Inr L0) \<and>
           L1 = (update_epoch P ^^ nat (n_updates_per_iteration P)) L0 \<and>
           learn_cycle P (learn_init w) = Some (Inr L1) \<and>
           \<not> t_so_far L1 < timesteps_per_batch P \<and>
           learn P (timesteps_per_batch P) w = Some (Inr L1)"
proof -
  let ?I = "learn_init w :: ('w, 'f) learn_state"
  have et: "episodes_terminate P" using assms(1,2) by (rule one_step_episodes_terminate)
  from rollout_loop_returns [OF et batch_inv_init] obtain s w' where
    run: "rollout_loop P w rollout_init = Some (Inr (s, w'))" by blast
  from rollout_loop_inv [OF run batch_inv_init]
  have inv: "batch_inv P s" and ge: "timesteps_per_batch P \<le> t s" by simp_all
  obtain obs acts lps rtgs lens where b: "batch_of P s = (obs, acts, lps, rtgs, lens)"
    by (metis surj_pair)
  have r: "rollout P (world ?I) = Some (Inr ((obs, acts, lps, rtgs, lens), w'))"
    using run b by (simp add: rollout_Inr learn_init_def)
  from rollout_lens_sum [OF r] have "sum_list lens = int (length obs) + int (length lens)" .
  moreover from b inv have "int (length obs) = t s"
    by (auto simp: batch_of_def batch_inv_def counts_ok_def)
  ultimately have sum: "timesteps_per_batch P \<le> sum_list lens" using ge by simp
  let ?L0 = "?I\<lparr>world := w', L_batch_obs := obs, L_batch_acts := acts,
                L_batch_log_probs := lps, L_batch_rtgs := rtgs, L_batch_lens := lens,
                t_so_far := t_so_far ?I + sum_list lens,
                V := fst (evaluate P w' obs acts),
                A_k := advantage (torch P) rtgs (fst (evaluate P w' obs acts))\<rparr>"
  let ?L1 = "(update_epoch P ^^ nat (n_updates_per_iteration P)) ?L0"
  have c: "collect P ?I = Some (Inr ?L0)" using r by (rule collect_Inr)
  have cyc: "learn_cycle P ?I = Some (Inr ?L1)" by (simp add: learn_cycle_def c)
  have t0: "t_so_far ?I < timesteps_per_batch P" using assms(3) by (simp add: learn_init_def)
  have "t_so_far ?L1 = sum_list lens" by (simp add: update_epochs_frame learn_init_def)
  with sum have t1: "\<not> t_so_far ?L1 < timesteps_per_batch P" by simp
  have "learn_loop P (timesteps_per_batch P) ?L1 = Some (Inr ?L1)"
    using t1 by (subst learn_loop.simps) simp
  then have "learn_loop P (timesteps_per_batch P) ?I = Some (Inr ?L1)"
    using t0 cyc by (subst learn_loop.simps) simp
  then have l: "learn P (timesteps_per_batch P) w = Some (Inr ?L1)" by (simp add: learn_def)
  from t0 c cyc t1 l show ?thesis by blast
qed

lemma stub_one_step: "one_step_env (stub_ppo T n)" "argmax_defined (stub_ppo T n)"
  by (simp_all add: one_step_env_def argmax_defined_def stub_ppo_def)

theorem learn_one_cycle_witness:
  "\<forall>T. one_step_env (stub_ppo T 2) \<and> argmax_defined (stub_ppo T 2) \<and>
       0 < timesteps_per_batch (stub_ppo T 2) \<and>
       timesteps_per_batch (stub_ppo T 2) = 2 \<and>
       (\<exists>L0 L1.
           t_so_far (learn_init 0 :: (nat, ieee) learn_state)
             < timesteps_per_batch (stub_ppo T 2) \<and>
           collect (stub_ppo T 2) (learn_init 0) = Some (Inr L0) \<and>
           L1 = (update_epoch (stub_ppo T 2) ^^ nat (n_updates_per_iteration (stub_ppo T 2))) L0 \<and>
           learn_cycle (stub_ppo T 2) (learn_init 0) = Some (Inr L1) \<and>
           \<not> t_so_far L1 < timesteps_per_batch (stub_ppo T 2) \<and>
           learn (stub_ppo T 2) (timesteps_per_batch (stub_ppo T 2)) 0 = Some (Inr L1))"
proof (rule allI, intro conjI)
  fix T
  show a: "one_step_env (stub_ppo T 2)" and b: "argmax_defined (stub_ppo T 2)"
    by (rule stub_one_step)+
  show c: "0 < timesteps_per_batch (stub_ppo T 2)" by (simp add: stub_simps)
  show "timesteps_per_batch (stub_ppo T 2) = 2" by (simp add: stub_simps)
  show "\<exists>L0 L1.
           t_so_far (learn_init 0 :: (nat, ieee) learn_state)
             < timesteps_per_batch (stub_ppo T 2) \<and>
           collect (stub_ppo T 2) (learn_init 0) = Some (Inr L0) \<and>
           L1 = (update_epoch (stub_ppo T 2) ^^ nat (n_updates_per_iteration (stub_ppo T 2))) L0 \<and>
           learn_cycle (stub_ppo T 2) (learn_init 0) = Some (Inr L1) \<and>
           \<not> t_so_far L1 < timesteps_per_batch (stub_ppo T 2) \<and>
           learn (stub_ppo T 2) (timesteps_per_batch (stub_ppo T 2)) 0 = Some (Inr L1)"
    by (rule learn_one_cycle [OF a b c])
qed

section \<open>Properties of the DQN training loop\<close>




text \<open>
  With the agent \<open>__init__\<close> builds (no model, no trainer) and this stub the iteration
  ends in the short-memory training, after the call of \<open>game.update\<close>.
\<close>

lemma stub_train_iter_init:
  "train_iter stub_dqn
     \<lparr>the_agent = agent_init, the_game = 0, rng = (), heap = 0, record_score = 0\<rparr>
   = ([GameUpdate K_RIGHT], Inl AttributeError)"
  by (simp add: train_iter_def stub_dqn_def agent_init_def agent_get_action_def get_state_def
      train_short_memory_def final_move_of_def Let_def)


end
